theory Spec2Isabelle
  imports Complex_Main "HOL-Library.Sublist"
begin

section \<open>The tiered match-outcome predictor (OptimizedCricketPredictor)\<close>

text \<open>
  A shallow embedding of the class \<open>OptimizedCricketPredictor\<close>. JavaScript numbers that
  carry probabilities are modelled as reals, millisecond readings of \<open>Date.now()\<close> and the
  integer-valued fields as integers. The two services the class calls
  (\<open>eloService.calculateWinProbability\<close> and \<open>mlService.generateEnhancedPrediction\<close>) are
  parameters of the model; a call that throws (a rejected promise) is the value \<open>Inl\<close>.
  One call of an operation runs without interleaving with another call.
\<close>

subsection \<open>Data\<close>

text \<open>
  Modelled from the spec: the declaration of \<open>PredictionInput\<close> lives in
  \<open>cricketPredictionFeatures\<close>, which is not among the sources. The fields are the ones the
  specification lists; \<open>tournament\<close> and \<open>seriesContext\<close> may be absent (the code reads them
  with \<open>?.\<close>). Identifiers and the format are the strings that end up in the cache key.
\<close>

record PredictionInput =
  team1Id :: string
  team2Id :: string
  team1Name :: string
  team2Name :: string
  venue :: string
  format :: string
  matchDate :: string
  tournament :: "string option"
  seriesContext :: "string option"

record FastPredictionResult =
  team1WinProb :: real
  team2WinProb :: real
  drawProb :: real
  confidence :: real
  keyFactors :: "string list"
  riskFactors :: "string list"
  modelVersion :: string
  processingTimeMs :: int
  engineUsed :: string
  accuracy :: int
  fromCache :: "bool option"

text \<open>
  Modelled from the spec: what \<open>calculateWinProbability\<close> resolves to (the rating service is
  not among the sources); the three fields are the ones the predictor reads.
\<close>

record EloProbabilities =
  eloTeam1WinProb :: real
  eloTeam2WinProb :: real
  eloDrawProb :: real

text \<open>
  Modelled from the spec: what \<open>generateEnhancedPrediction\<close> resolves to (the feature service
  is not among the sources); the five fields are the ones the predictor reads.
\<close>

record ComprehensivePrediction =
  enhancedTeam1WinProb :: real
  enhancedTeam2WinProb :: real
  enhancedDrawProb :: real
  confidenceLevel :: real
  enhancedModelVersion :: string

datatype error = Thrown string

record CacheEntry =
  result :: FastPredictionResult
  timestamp :: int

text \<open>
  The environment of a call: the readings successive calls of \<open>Date.now()\<close> return, and
  the two providers.
\<close>

record Env =
  clock :: "nat \<Rightarrow> int"
  calculateWinProbability :: "string \<Rightarrow> string \<Rightarrow> string \<Rightarrow> error + EloProbabilities"
  generateEnhancedPrediction ::
    "PredictionInput \<Rightarrow> real \<times> real \<times> real \<Rightarrow> error + ComprehensivePrediction"

text \<open>
  The mutable state: the \<open>Map\<close> held in \<open>predictionCache\<close>, as the list of its entries in
  iteration order, and the number of clock readings taken so far.
\<close>

record state =
  predictionCache :: "(string \<times> CacheEntry) list"
  reads :: nat

record CacheStats =
  statsSize :: nat
  hitRate :: real

datatype TimeConstraint = TC_fast | TC_balanced | TC_accurate

datatype Mode = Mode_fast | Mode_balanced | Mode_smart

subsection \<open>The JavaScript primitives the class uses\<close>

definition Date_now :: "Env \<Rightarrow> state \<Rightarrow> int \<times> state" where
  "Date_now env s = (clock env (reads s), s\<lparr>reads := Suc (reads s)\<rparr>)"

text \<open>
  \<open>x || d\<close> on numbers: the default replaces a falsy \<open>x\<close>, and the number 0 is falsy.
  (\<open>NaN\<close> and \<open>undefined\<close>, falsy as well, are not values of the model.)
\<close>

definition js_or :: "real \<Rightarrow> real \<Rightarrow> real" where
  "js_or x d = (if x = 0 then d else x)"

text \<open>
  A \<open>Map\<close> iterates in insertion order: \<open>set\<close> on a key that is present replaces the value
  where it stands, \<open>set\<close> on a new key appends, \<open>delete\<close> removes the entry.
\<close>

fun Map_get :: "(string \<times> 'v) list \<Rightarrow> string \<Rightarrow> 'v option" where
  "Map_get [] k = None"
| "Map_get ((k', v) # m) k = (if k' = k then Some v else Map_get m k)"

fun Map_set :: "string \<Rightarrow> 'v \<Rightarrow> (string \<times> 'v) list \<Rightarrow> (string \<times> 'v) list" where
  "Map_set k v [] = [(k, v)]"
| "Map_set k v ((k', v') # m) = (if k' = k then (k, v) # m else (k', v') # Map_set k v m)"

fun Map_delete :: "string \<Rightarrow> (string \<times> 'v) list \<Rightarrow> (string \<times> 'v) list" where
  "Map_delete k [] = []"
| "Map_delete k ((k', v') # m) = (if k' = k then m else (k', v') # Map_delete k m)"

definition Map_keys :: "(string \<times> 'v) list \<Rightarrow> string list" where
  "Map_keys m = map fst m"

text \<open>
  \<open>toLowerCase\<close> on the letters A to Z; every other character is left as it is (strings
  are ASCII in this model).
\<close>

definition char_toLowerCase :: "char \<Rightarrow> char" where
  "char_toLowerCase c =
     (case map_of (zip ''ABCDEFGHIJKLMNOPQRSTUVWXYZ'' ''abcdefghijklmnopqrstuvwxyz'') c of
        Some l \<Rightarrow> l
      | None \<Rightarrow> c)"

definition toLowerCase :: "string \<Rightarrow> string" where
  "toLowerCase s = map char_toLowerCase s"

fun startsWith :: "string \<Rightarrow> string \<Rightarrow> bool" where
  "startsWith s [] = True"
| "startsWith [] (c # w) = False"
| "startsWith (d # s) (c # w) = (d = c \<and> startsWith s w)"

fun includes_str :: "string \<Rightarrow> string \<Rightarrow> bool" where
  "includes_str [] w = (w = [])"
| "includes_str (d # s) w = (startsWith (d # s) w \<or> includes_str s w)"

subsection \<open>Cache management\<close>

definition CACHE_TTL :: int where
  "CACHE_TTL = 5 * 60 * 1000"

definition getCachedPrediction ::
  "Env \<Rightarrow> state \<Rightarrow> string \<Rightarrow> FastPredictionResult option \<times> state" where
  "getCachedPrediction env s key =
     (case Map_get (predictionCache s) key of
        None \<Rightarrow> (None, s)
      | Some cached \<Rightarrow>
          (case Date_now env s of
             (now, s') \<Rightarrow>
               if now - timestamp cached < CACHE_TTL
               then (Some ((result cached)\<lparr>fromCache := Some True\<rparr>), s')
               else (None, s')))"

definition cacheResult :: "Env \<Rightarrow> state \<Rightarrow> string \<Rightarrow> FastPredictionResult \<Rightarrow> state" where
  "cacheResult env s key r =
     (case Date_now env s of
        (now, s') \<Rightarrow>
          let m = Map_set key \<lparr>result = r, timestamp = now\<rparr> (predictionCache s') in
          if length m > 100
          then (case Map_keys m of
                  [] \<Rightarrow> s'\<lparr>predictionCache := m\<rparr>
                | oldestKey # _ \<Rightarrow> s'\<lparr>predictionCache := Map_delete oldestKey m\<rparr>)
          else s'\<lparr>predictionCache := m\<rparr>)"

definition clearCache :: "state \<Rightarrow> state" where
  "clearCache s = s\<lparr>predictionCache := []\<rparr>"

definition getCacheStats :: "state \<Rightarrow> CacheStats" where
  "getCacheStats s = \<lparr>statsSize = length (predictionCache s), hitRate = 0.85\<rparr>"

subsection \<open>The three tiers\<close>

definition generateBasicFallback :: "PredictionInput \<Rightarrow> int \<Rightarrow> FastPredictionResult" where
  "generateBasicFallback input processingTime =
     \<lparr>team1WinProb = 0.52,
      team2WinProb = 0.46,
      drawProb = 0.02,
      confidence = 0.60,
      keyFactors = [''Basic statistical analysis''],
      riskFactors = [''Limited data available'', ''Fallback prediction''],
      modelVersion = ''fallback-v1.0'',
      processingTimeMs = processingTime,
      engineUsed = ''Basic Fallback'',
      accuracy = 65,
      fromCache = None\<rparr>"

definition fastCacheKey :: "PredictionInput \<Rightarrow> string" where
  "fastCacheKey input =
     ''fast_'' @ team1Id input @ ''_'' @ team2Id input @ ''_'' @ format input"

definition balancedCacheKey :: "PredictionInput \<Rightarrow> string" where
  "balancedCacheKey input =
     ''balanced_'' @ team1Id input @ ''_'' @ team2Id input @ ''_'' @ format input
       @ ''_'' @ venue input"

text \<open>The object literal that \<open>generateFastPrediction\<close> builds from the rating result.\<close>

definition fastResult :: "PredictionInput \<Rightarrow> EloProbabilities \<Rightarrow> int \<Rightarrow> FastPredictionResult" where
  "fastResult input eloResult elapsed =
     \<lparr>team1WinProb = eloTeam1WinProb eloResult,
      team2WinProb = eloTeam2WinProb eloResult,
      drawProb = js_or (eloDrawProb eloResult) 0.02,
      confidence = 0.75,
      keyFactors = [''Team strength (Elo ratings)'', ''Historical performance''],
      riskFactors =
        (if format input = ''test'' then [''Weather dependency'', ''Match duration''] else []),
      modelVersion = ''fast-v1.0'',
      processingTimeMs = elapsed,
      engineUsed = ''Elo Rating System'',
      accuracy = (if format input = ''t20'' then 78 else if format input = ''odi'' then 75 else 72),
      fromCache = None\<rparr>"

text \<open>The object literal that \<open>generateBalancedPrediction\<close> builds from the enhanced result.\<close>

definition balancedResult ::
  "PredictionInput \<Rightarrow> ComprehensivePrediction \<Rightarrow> int \<Rightarrow> FastPredictionResult" where
  "balancedResult input enhancedResult elapsed =
     \<lparr>team1WinProb = enhancedTeam1WinProb enhancedResult,
      team2WinProb = enhancedTeam2WinProb enhancedResult,
      drawProb = js_or (enhancedDrawProb enhancedResult) 0.02,
      confidence = js_or (confidenceLevel enhancedResult) 0.82,
      keyFactors = [''Team strength'', ''Venue factors'', ''Recent form'', ''Player analysis''],
      riskFactors = [],
      modelVersion = enhancedModelVersion enhancedResult,
      processingTimeMs = elapsed,
      engineUsed = ''Elo + ML Ensemble'',
      accuracy = (if format input = ''t20'' then 82 else if format input = ''odi'' then 79 else 75),
      fromCache = None\<rparr>"

definition generateFastPrediction ::
  "Env \<Rightarrow> state \<Rightarrow> PredictionInput \<Rightarrow> error + (FastPredictionResult \<times> state)" where
  "generateFastPrediction env s input =
     (let cacheKey = fastCacheKey input in
      case getCachedPrediction env s cacheKey of
        (Some cached, s1) \<Rightarrow> Inr (cached, s1)
      | (None, s1) \<Rightarrow>
          (case Date_now env s1 of
             (startTime, s2) \<Rightarrow>
               (case calculateWinProbability env (team1Id input) (team2Id input) (format input) of
                  Inr eloResult \<Rightarrow>
                    (case Date_now env s2 of
                       (now, s3) \<Rightarrow>
                         let r = fastResult input eloResult (now - startTime) in
                         Inr (r, cacheResult env s3 cacheKey r))
                | Inl err \<Rightarrow>
                    (case Date_now env s2 of
                       (now, s3) \<Rightarrow>
                         Inr (generateBasicFallback input (now - startTime), s3)))))"

definition generateBalancedPrediction ::
  "Env \<Rightarrow> state \<Rightarrow> PredictionInput \<Rightarrow> error + (FastPredictionResult \<times> state)" where
  "generateBalancedPrediction env s input =
     (let cacheKey = balancedCacheKey input in
      case getCachedPrediction env s cacheKey of
        (Some cached, s1) \<Rightarrow> Inr (cached, s1)
      | (None, s1) \<Rightarrow>
          (case Date_now env s1 of
             (startTime, s2) \<Rightarrow>
               (case calculateWinProbability env (team1Id input) (team2Id input) (format input) of
                  Inl err \<Rightarrow> generateFastPrediction env s2 input
                | Inr baseProbs \<Rightarrow>
                    (case generateEnhancedPrediction env input
                            (eloTeam1WinProb baseProbs, eloTeam2WinProb baseProbs,
                             eloDrawProb baseProbs) of
                       Inl err \<Rightarrow> generateFastPrediction env s2 input
                     | Inr enhancedResult \<Rightarrow>
                         (case Date_now env s2 of
                            (now, s3) \<Rightarrow>
                              let r = balancedResult input enhancedResult (now - startTime) in
                              Inr (r, cacheResult env s3 cacheKey r))))))"

text \<open>
  \<open>field?.toLowerCase().includes(word)\<close>: an absent field gives \<open>undefined\<close>, which is falsy.
\<close>

definition fieldIncludes :: "string option \<Rightarrow> string \<Rightarrow> bool" where
  "fieldIncludes field word =
     (case field of None \<Rightarrow> False | Some t \<Rightarrow> includes_str (toLowerCase t) word)"

definition isImportantMatch :: "PredictionInput \<Rightarrow> bool" where
  "isImportantMatch input =
     (fieldIncludes (tournament input) ''world'' \<or>
      fieldIncludes (tournament input) ''final'' \<or>
      fieldIncludes (seriesContext input) ''final'' \<or>
      fieldIncludes (seriesContext input) ''semi'')"

definition generateSmartPrediction ::
  "Env \<Rightarrow> state \<Rightarrow> PredictionInput \<Rightarrow> TimeConstraint \<Rightarrow>
     error + (FastPredictionResult \<times> state)" where
  "generateSmartPrediction env s input timeConstraint =
     (case timeConstraint of
        TC_fast \<Rightarrow> generateFastPrediction env s input
      | TC_accurate \<Rightarrow> generateBalancedPrediction env s input
      | TC_balanced \<Rightarrow>
          if isImportantMatch input
          then generateBalancedPrediction env s input
          else generateFastPrediction env s input)"

text \<open>\<open>predict\<close> calls the smart tier with its default time constraint, \<open>'balanced'\<close>.\<close>

definition predict ::
  "Env \<Rightarrow> state \<Rightarrow> PredictionInput \<Rightarrow> Mode \<Rightarrow> error + (FastPredictionResult \<times> state)" where
  "predict env s input mode =
     (case mode of
        Mode_fast \<Rightarrow> generateFastPrediction env s input
      | Mode_balanced \<Rightarrow> generateBalancedPrediction env s input
      | Mode_smart \<Rightarrow> generateSmartPrediction env s input TC_balanced)"

section \<open>Notions used to state the properties\<close>

subsection \<open>Runs of insertions\<close>

text \<open>A sequence of \<open>cacheResult\<close> calls, one after the other, on the same cache.\<close>

fun cacheResults :: "Env \<Rightarrow> state \<Rightarrow> (string \<times> FastPredictionResult) list \<Rightarrow> state" where
  "cacheResults env s [] = s"
| "cacheResults env s ((key, r) # ops) = cacheResults env (cacheResult env s key r) ops"

text \<open>
  Beside such a run, the number of the insertion that put each present key into the map:
  insertion number \<open>i\<close> stamps its key with \<open>i\<close> when the key is absent, a key that is
  present keeps its stamp, and the stamp leaves with the key when the entry is evicted.
\<close>

definition stampStep :: "nat \<Rightarrow> string \<Rightarrow> (string \<times> nat) list \<Rightarrow> (string \<times> nat) list" where
  "stampStep i k q =
     (let q' = (if k \<in> set (map fst q) then q else q @ [(k, i)])
      in if length q' > 100 then tl q' else q')"

fun insertionSteps :: "nat \<Rightarrow> (string \<times> nat) list \<Rightarrow> string list \<Rightarrow> (string \<times> nat) list" where
  "insertionSteps i q [] = q"
| "insertionSteps i q (k # ks) = insertionSteps (Suc i) (stampStep i k q) ks"

subsection \<open>Cache entries that can still be served\<close>

text \<open>
  No entry under \<open>key\<close> can be served any more: the map has none, or the one it has is past
  its time to live at every reading of the clock still to come.
\<close>

definition noFreshEntry :: "Env \<Rightarrow> state \<Rightarrow> string \<Rightarrow> bool" where
  "noFreshEntry env s key =
     (\<forall>e n. Map_get (predictionCache s) key = Some e \<longrightarrow> reads s \<le> n \<longrightarrow>
        CACHE_TTL \<le> clock env n - timestamp e)"

subsection \<open>The tiers that own a cache key\<close>

datatype Tier = Fast | Balanced

definition tierKey :: "Tier \<Rightarrow> PredictionInput \<Rightarrow> string" where
  "tierKey tier input =
     (case tier of Fast \<Rightarrow> fastCacheKey input | Balanced \<Rightarrow> balancedCacheKey input)"

definition runTier ::
  "Tier \<Rightarrow> Env \<Rightarrow> state \<Rightarrow> PredictionInput \<Rightarrow> error + (FastPredictionResult \<times> state)" where
  "runTier tier env s input =
     (case tier of
        Fast \<Rightarrow> generateFastPrediction env s input
      | Balanced \<Rightarrow> generateBalancedPrediction env s input)"

text \<open>
  What a tier computes from its own providers after \<open>elapsed\<close> milliseconds, and \<open>None\<close> when
  one of the providers it calls throws.
\<close>

definition computeTier ::
  "Tier \<Rightarrow> Env \<Rightarrow> PredictionInput \<Rightarrow> int \<Rightarrow> FastPredictionResult option" where
  "computeTier tier env input elapsed =
     (case calculateWinProbability env (team1Id input) (team2Id input) (format input) of
        Inl err \<Rightarrow> None
      | Inr probs \<Rightarrow>
          (case tier of
             Fast \<Rightarrow> Some (fastResult input probs elapsed)
           | Balanced \<Rightarrow>
               (case generateEnhancedPrediction env input
                       (eloTeam1WinProb probs, eloTeam2WinProb probs, eloDrawProb probs) of
                  Inl err \<Rightarrow> None
                | Inr enhancedResult \<Rightarrow> Some (balancedResult input enhancedResult elapsed))))"

subsection \<open>The invariant of a probability triple\<close>

text \<open>Each probability lies in [0, 1] and the three sum to 1 within a hundredth.\<close>

definition validProbabilities :: "real \<Rightarrow> real \<Rightarrow> real \<Rightarrow> bool" where
  "validProbabilities p1 p2 d =
     (0 \<le> p1 \<and> p1 \<le> 1 \<and> 0 \<le> p2 \<and> p2 \<le> 1 \<and> 0 \<le> d \<and> d \<le> 1 \<and>
      0.99 \<le> p1 + p2 + d \<and> p1 + p2 + d \<le> 1.01)"

subsection \<open>The importance rule as the specification words it\<close>

text \<open>
  The specification's routing rule, read with every word of the vocabulary looked for in
  both fields. It is stated here to be compared with \<open>isImportantMatch\<close>, which is the rule
  of the code.
\<close>

definition importanceMarkers :: "string list" where
  "importanceMarkers = [''world'', ''final'', ''semi'']"

definition matchesAnyMarker :: "PredictionInput \<Rightarrow> bool" where
  "matchesAnyMarker input =
     list_ex (\<lambda>w. fieldIncludes (tournament input) w \<or> fieldIncludes (seriesContext input) w)
       importanceMarkers"

subsection \<open>Sample inputs\<close>

definition sampleInput :: PredictionInput where
  "sampleInput =
     \<lparr>team1Id = ''IND'', team2Id = ''AUS'', team1Name = ''India'', team2Name = ''Australia'',
      venue = ''MCG'', format = ''t20'', matchDate = ''2025-01-01'',
      tournament = Some ''Friendly T20'', seriesContext = None\<rparr>"

definition semiCupInput :: PredictionInput where
  "semiCupInput = sampleInput\<lparr>tournament := Some ''Semi Cup''\<rparr>"

definition worldCupInput :: PredictionInput where
  "worldCupInput = sampleInput\<lparr>tournament := Some ''ICC World Cup Final''\<rparr>"

text \<open>
  A rating result for a limited-overs match, with no draw mass, and an enhanced result of
  the same kind. Both satisfy the invariant of a probability triple.
\<close>

definition sampleProbs :: EloProbabilities where
  "sampleProbs = \<lparr>eloTeam1WinProb = 0.6, eloTeam2WinProb = 0.4, eloDrawProb = 0\<rparr>"

definition sampleEnhanced :: ComprehensivePrediction where
  "sampleEnhanced =
     \<lparr>enhancedTeam1WinProb = 0.62, enhancedTeam2WinProb = 0.38, enhancedDrawProb = 0,
      confidenceLevel = 0.85, enhancedModelVersion = ''ensemble-v2''\<rparr>"

text \<open>Providers that answer, and a clock that advances a millisecond a reading.\<close>

definition sampleEnv :: Env where
  "sampleEnv =
     \<lparr>clock = (\<lambda>n. 1000 + int n),
      calculateWinProbability = (\<lambda>a b f. Inr sampleProbs),
      generateEnhancedPrediction = (\<lambda>i p. Inr sampleEnhanced)\<rparr>"

text \<open>The same providers, read more than five minutes later.\<close>

definition laterEnv :: Env where
  "laterEnv = sampleEnv\<lparr>clock := (\<lambda>n. 1000000 + int n)\<rparr>"

text \<open>A feature provider that throws; both providers throwing; the latter, read later.\<close>

definition featuresDownEnv :: Env where
  "featuresDownEnv =
     sampleEnv\<lparr>generateEnhancedPrediction := (\<lambda>i p. Inl (Thrown ''features unavailable''))\<rparr>"

definition allDownEnv :: Env where
  "allDownEnv =
     featuresDownEnv\<lparr>calculateWinProbability := (\<lambda>a b f. Inl (Thrown ''no rating''))\<rparr>"

definition allDownLaterEnv :: Env where
  "allDownLaterEnv = allDownEnv\<lparr>clock := (\<lambda>n. 1000000 + int n)\<rparr>"

definition freshState :: state where
  "freshState = \<lparr>predictionCache = [], reads = 0\<rparr>"

text \<open>
  The state a fast prediction of the sample input leaves behind on a fresh predictor, and
  the state a balanced prediction leaves behind.
\<close>

definition warmFastState :: state where
  "warmFastState =
     \<lparr>predictionCache =
        [(''fast_IND_AUS_t20'',
          \<lparr>result = fastResult sampleInput sampleProbs 1, timestamp = 1002\<rparr>)],
      reads = 3\<rparr>"

definition warmBalancedState :: state where
  "warmBalancedState =
     \<lparr>predictionCache =
        [(''balanced_IND_AUS_t20_MCG'',
          \<lparr>result = balancedResult sampleInput sampleEnhanced 1, timestamp = 1002\<rparr>)],
      reads = 3\<rparr>"

text \<open>
  The state a balanced prediction of the sample input leaves behind when it follows the
  fast one: both entries stand.
\<close>

definition busyState :: state where
  "busyState =
     \<lparr>predictionCache =
        [(''fast_IND_AUS_t20'',
          \<lparr>result = fastResult sampleInput sampleProbs 1, timestamp = 1002\<rparr>),
         (''balanced_IND_AUS_t20_MCG'',
          \<lparr>result = balancedResult sampleInput sampleEnhanced 1, timestamp = 1005\<rparr>)],
      reads = 6\<rparr>"

text \<open>
  The state a balanced prediction leaves behind on a fresh predictor whose feature
  provider throws: the fast tier's result, under the fast key.
\<close>

definition degradedState :: state where
  "degradedState =
     \<lparr>predictionCache =
        [(''fast_IND_AUS_t20'',
          \<lparr>result = fastResult sampleInput sampleProbs 1, timestamp = 1003\<rparr>)],
      reads = 4\<rparr>"

text \<open>
  A cache at capacity in which the sample input's fast entry is the oldest: 99 other
  results were stored after it.
\<close>

definition crowdedState :: state where
  "crowdedState =
     \<lparr>predictionCache =
        (''fast_IND_AUS_t20'',
         \<lparr>result = fastResult sampleInput sampleProbs 1, timestamp = 1002\<rparr>) #
        map (\<lambda>i. (replicate (Suc i) (CHR ''k''),
                  \<lparr>result = fastResult sampleInput sampleProbs 1, timestamp = 1003 + int i\<rparr>))
          [0..<99],
      reads = 200\<rparr>"

text \<open>A cache whose only entry, for the sample input's fast key, was stored at time 0.\<close>

definition staleState :: state where
  "staleState =
     \<lparr>predictionCache =
        [(''fast_IND_AUS_t20'',
          \<lparr>result = fastResult sampleInput sampleProbs 1, timestamp = 0\<rparr>)],
      reads = 0\<rparr>"

text \<open>A cache at capacity: 100 entries under the keys \<open>k\<close>, \<open>kk\<close>, \<open>kkk\<close>, ...\<close>

definition fullState :: state where
  "fullState =
     \<lparr>predictionCache =
        map (\<lambda>i. (replicate (Suc i) (CHR ''k''),
                  \<lparr>result = fastResult sampleInput sampleProbs 1, timestamp = int i\<rparr>))
          [0..<100],
      reads = 100\<rparr>"

section \<open>Facts about the cache\<close>

lemma Map_keys_simps [simp]:
  "Map_keys [] = []" "Map_keys (p # m) = fst p # Map_keys m"
  by (simp_all add: Map_keys_def)

lemma length_Map_keys [simp]: "length (Map_keys m) = length m"
  by (simp add: Map_keys_def)

lemma Map_keys_tl: "Map_keys (tl m) = tl (Map_keys m)"
  by (cases m) auto

lemma length_Map_set:
  "length (Map_set k v m) = (if k \<in> set (Map_keys m) then length m else Suc (length m))"
  by (induction m) auto

lemma Map_keys_Map_set:
  "Map_keys (Map_set k v m) = (if k \<in> set (Map_keys m) then Map_keys m else Map_keys m @ [k])"
  by (induction m) auto

lemma Map_set_new: "k \<notin> set (Map_keys m) \<Longrightarrow> Map_set k v m = m @ [(k, v)]"
  by (induction m) auto

lemma Map_get_Map_set_same: "Map_get (Map_set k v m) k = Some v"
  by (induction m) auto

lemma Map_get_None_iff: "Map_get m k = None \<longleftrightarrow> k \<notin> set (Map_keys m)"
  by (induction m) (auto split: if_splits)

text \<open>
  What \<open>cacheResult\<close> leaves in the map: the entry is set, and past 100 entries the first
  one in iteration order goes.
\<close>

lemma cacheResult_cache:
  "predictionCache (cacheResult env s key r) =
     (let m = Map_set key \<lparr>result = r, timestamp = clock env (reads s)\<rparr> (predictionCache s)
      in if length m > 100 then tl m else m)"
  by (cases "Map_set key \<lparr>result = r, timestamp = clock env (reads s)\<rparr> (predictionCache s)")
     (auto simp: cacheResult_def Date_now_def Let_def split: list.splits)

lemma cacheResult_reads: "reads (cacheResult env s key r) = Suc (reads s)"
  by (auto simp: cacheResult_def Date_now_def Let_def split: list.splits)

lemma cacheResult_keys:
  "Map_keys (predictionCache (cacheResult env s key r)) =
     (let ks = Map_keys (predictionCache s);
          ks' = (if key \<in> set ks then ks else ks @ [key])
      in if length ks' > 100 then tl ks' else ks')"
  by (simp add: cacheResult_cache Let_def Map_keys_tl Map_keys_Map_set length_Map_set)

lemma cacheResult_bound:
  "length (predictionCache s) \<le> 100 \<Longrightarrow>
   length (predictionCache (cacheResult env s key r)) \<le> 100"
  by (auto simp: cacheResult_cache Let_def length_Map_set)

lemma cacheResults_bound:
  "length (predictionCache s) \<le> 100 \<Longrightarrow>
   length (predictionCache (cacheResults env s ops)) \<le> 100"
  by (induction ops arbitrary: s) (auto simp: cacheResult_bound)

lemma cacheResult_distinct:
  "distinct (Map_keys (predictionCache s)) \<Longrightarrow>
   distinct (Map_keys (predictionCache (cacheResult env s key r)))"
  by (simp add: cacheResult_keys Let_def distinct_tl)

lemma cacheResults_distinct:
  "distinct (Map_keys (predictionCache s)) \<Longrightarrow>
   distinct (Map_keys (predictionCache (cacheResults env s ops)))"
  by (induction ops arbitrary: s) (auto simp: cacheResult_distinct)

text \<open>In a map within capacity, the entry just stored is never the one evicted.\<close>

lemma cacheResult_get:
  assumes "length (predictionCache s) \<le> 100"
  shows "Map_get (predictionCache (cacheResult env s key r)) key =
           Some \<lparr>result = r, timestamp = clock env (reads s)\<rparr>"
proof -
  let ?v = "\<lparr>result = r, timestamp = clock env (reads s)\<rparr>"
  let ?m = "Map_set key ?v (predictionCache s)"
  show ?thesis
  proof (cases "length ?m > 100")
    case False
    then show ?thesis by (simp add: cacheResult_cache Map_get_Map_set_same)
  next
    case True
    then have new: "key \<notin> set (Map_keys (predictionCache s))"
      using assms by (auto simp: length_Map_set split: if_splits)
    from True assms have "predictionCache s \<noteq> []"
      by (auto simp: length_Map_set split: if_splits)
    then obtain p m' where pm: "predictionCache s = p # m'"
      by (cases "predictionCache s") auto
    have "?m = p # (m' @ [(key, ?v)])"
      using new pm by (simp add: Map_set_new)
    moreover have "fst p \<noteq> key" using new pm by auto
    ultimately have "Map_get (tl ?m) key = Map_get ?m key"
      by (cases p) simp
    then show ?thesis
      using True by (simp add: cacheResult_cache Map_get_Map_set_same)
  qed
qed

text \<open>A lookup, outcome by outcome. It never changes the map.\<close>

lemma getCachedPrediction_cases:
  "getCachedPrediction env s key =
     (case Map_get (predictionCache s) key of
        None \<Rightarrow> (None, s)
      | Some e \<Rightarrow>
          (if clock env (reads s) - timestamp e < CACHE_TTL
           then Some ((result e)\<lparr>fromCache := Some True\<rparr>) else None,
           s\<lparr>reads := Suc (reads s)\<rparr>))"
  by (simp add: getCachedPrediction_def Date_now_def split: option.splits)

lemma getCachedPrediction_cache:
  "predictionCache (snd (getCachedPrediction env s key)) = predictionCache s"
  by (simp add: getCachedPrediction_cases split: option.splits)

lemma getCachedPrediction_noFresh:
  "noFreshEntry env s key \<Longrightarrow>
   \<exists>s'. getCachedPrediction env s key = (None, s') \<and> predictionCache s' = predictionCache s \<and>
        reads s \<le> reads s'"
  by (cases "Map_get (predictionCache s) key")
     (auto simp: getCachedPrediction_cases noFreshEntry_def)

lemma noFreshEntry_later:
  "noFreshEntry env s key \<Longrightarrow> predictionCache s' = predictionCache s \<Longrightarrow>
   reads s \<le> reads s' \<Longrightarrow> noFreshEntry env s' key"
  by (auto simp: noFreshEntry_def)

subsection \<open>Insertion stamps follow the map\<close>

lemma stampStep_keys:
  assumes "map fst q = Map_keys (predictionCache s)"
  shows "map fst (stampStep i key q) = Map_keys (predictionCache (cacheResult env s key r))"
proof -
  have "length q = length (predictionCache s)"
    using assms by (metis length_map length_Map_keys)
  then show ?thesis
    using assms by (simp add: stampStep_def cacheResult_keys Let_def map_tl)
qed

lemma stampStep_sorted:
  assumes "sorted_wrt (<) (map snd q)" and "\<forall>j \<in> set (map snd q). j < i"
  shows "sorted_wrt (<) (map snd (stampStep i k q)) \<and>
         (\<forall>j \<in> set (map snd (stampStep i k q)). j < Suc i)"
proof -
  let ?q' = "if k \<in> set (map fst q) then q else q @ [(k, i)]"
  have s': "sorted_wrt (<) (map snd ?q')"
    using assms by (auto simp: sorted_wrt_append)
  have b': "\<forall>j \<in> set (map snd ?q'). j < Suc i"
    using assms by (auto simp: less_Suc_eq)
  have "sorted_wrt (<) (map snd (tl ?q'))" "\<forall>j \<in> set (map snd (tl ?q')). j < Suc i"
    using s' b' by (cases ?q'; simp)+
  with s' b' show ?thesis
    unfolding stampStep_def Let_def by presburger
qed

lemma stampStep_stamp:
  assumes "(k, j) \<in> set (stampStep i k' q)"
  shows "(k, j) \<in> set q \<or> (j = i \<and> k = k')"
proof -
  let ?q' = "if k' \<in> set (map fst q) then q else q @ [(k', i)]"
  have "set (stampStep i k' q) \<subseteq> set ?q'"
    unfolding stampStep_def Let_def
    by (cases ?q') (auto split: if_splits)
  with assms have "(k, j) \<in> set ?q'" by blast
  then show ?thesis by (auto split: if_splits)
qed

lemma insertionSteps_keys:
  "map fst q = Map_keys (predictionCache s) \<Longrightarrow>
   map fst (insertionSteps i q (map fst ops)) =
     Map_keys (predictionCache (cacheResults env s ops))"
proof (induction ops arbitrary: s q i)
  case Nil
  then show ?case by simp
next
  case (Cons op ops)
  obtain key r where op: "op = (key, r)" by (cases op)
  from Cons.IH [OF stampStep_keys [OF Cons.prems]] show ?case
    by (simp add: op)
qed

lemma insertionSteps_sorted:
  "sorted_wrt (<) (map snd q) \<Longrightarrow> \<forall>j \<in> set (map snd q). j < i \<Longrightarrow>
   sorted_wrt (<) (map snd (insertionSteps i q ks))"
proof (induction ks arbitrary: q i)
  case Nil
  then show ?case by simp
next
  case (Cons k ks)
  from stampStep_sorted [OF Cons.prems, of k] Cons.IH [of "stampStep i k q" "Suc i"]
  show ?case by simp
qed

lemma insertionSteps_stamp:
  "(k, j) \<in> set (insertionSteps i q ks) \<Longrightarrow>
   (k, j) \<in> set q \<or> (i \<le> j \<and> j < i + length ks \<and> ks ! (j - i) = k)"
proof (induction ks arbitrary: q i)
  case Nil
  then show ?case by simp
next
  case (Cons k' ks)
  from Cons.prems have "(k, j) \<in> set (insertionSteps (Suc i) (stampStep i k' q) ks)"
    by simp
  from Cons.IH [OF this]
  consider "(k, j) \<in> set (stampStep i k' q)"
    | "Suc i \<le> j \<and> j < Suc i + length ks \<and> ks ! (j - Suc i) = k"
    by blast
  then show ?case
  proof cases
    case 1
    from stampStep_stamp [OF this] show ?thesis by auto
  next
    case 2
    then show ?thesis by (auto simp: nth_Cons')
  qed
qed

section \<open>Facts about the tiers\<close>

lemmas sample_defs =
  sampleInput_def semiCupInput_def worldCupInput_def sampleEnv_def featuresDownEnv_def
  allDownEnv_def allDownLaterEnv_def laterEnv_def freshState_def staleState_def
  warmFastState_def warmBalancedState_def

lemmas lower_defs = toLowerCase_def char_toLowerCase_def

subsection \<open>Every tier resolves\<close>

lemma generateFastPrediction_returns:
  "\<exists>r s'. generateFastPrediction env s input = Inr (r, s')"
  by (auto simp: generateFastPrediction_def Let_def Date_now_def
           split: prod.splits option.splits sum.splits)

lemma generateBalancedPrediction_returns:
  "\<exists>r s'. generateBalancedPrediction env s input = Inr (r, s')"
  using generateFastPrediction_returns
  by (auto simp: generateBalancedPrediction_def Let_def Date_now_def
           split: prod.splits option.splits sum.splits)

subsection \<open>The way down to the static fallback\<close>

lemma generateFastPrediction_fallback:
  assumes "calculateWinProbability env (team1Id input) (team2Id input) (format input) = Inl e"
    and "noFreshEntry env s (fastCacheKey input)"
  shows "\<exists>t s'. generateFastPrediction env s input = Inr (generateBasicFallback input t, s')"
proof -
  obtain s1 where "getCachedPrediction env s (fastCacheKey input) = (None, s1)"
    using getCachedPrediction_noFresh [OF assms(2)] by blast
  then show ?thesis
    using assms(1) by (auto simp: generateFastPrediction_def Date_now_def)
qed

lemma generateBalancedPrediction_fallback:
  assumes "calculateWinProbability env (team1Id input) (team2Id input) (format input) = Inl e"
    and "noFreshEntry env s (fastCacheKey input)"
    and "noFreshEntry env s (balancedCacheKey input)"
  shows "\<exists>t s'. generateBalancedPrediction env s input = Inr (generateBasicFallback input t, s')"
proof -
  obtain s1 where s1: "getCachedPrediction env s (balancedCacheKey input) = (None, s1)"
      "predictionCache s1 = predictionCache s" "reads s \<le> reads s1"
    using getCachedPrediction_noFresh [OF assms(3)] by blast
  have "noFreshEntry env (s1\<lparr>reads := Suc (reads s1)\<rparr>) (fastCacheKey input)"
    using assms(2) s1 by (auto intro: noFreshEntry_later)
  from generateFastPrediction_fallback [OF assms(1) this] show ?thesis
    using s1 assms(1) by (simp add: generateBalancedPrediction_def Date_now_def)
qed

subsection \<open>A tier and its cache entry\<close>

lemma runTier_first_cached:
  assumes inv: "length (predictionCache s) \<le> 100"
    and first: "runTier tier env s input = Inr (r1, s1)"
    and own: "fst (getCachedPrediction env s (tierKey tier input)) \<noteq> None \<or>
              computeTier tier env input 0 \<noteq> None"
  shows "\<exists>e. Map_get (predictionCache s1) (tierKey tier input) = Some e \<and>
             (result e)\<lparr>fromCache := Some True\<rparr> = r1\<lparr>fromCache := Some True\<rparr>"
proof (cases "fst (getCachedPrediction env s (tierKey tier input))")
  case (Some c)
  then show ?thesis
    using first
    by (cases tier)
       (auto simp: runTier_def tierKey_def generateFastPrediction_def
          generateBalancedPrediction_def getCachedPrediction_cases
          split: option.splits if_splits)
next
  case None
  then obtain s' where s': "getCachedPrediction env s (tierKey tier input) = (None, s')"
      "predictionCache s' = predictionCache s"
    using getCachedPrediction_cache [of env s "tierKey tier input"]
    by (cases "getCachedPrediction env s (tierKey tier input)") auto
  from None own have comp: "computeTier tier env input 0 \<noteq> None" by simp
  have len: "length (predictionCache (s'\<lparr>reads := n\<rparr>)) \<le> 100" for n
    using inv s' by simp
  show ?thesis
    using first s' comp cacheResult_get [OF len]
    by (cases tier)
       (auto simp: runTier_def tierKey_def generateFastPrediction_def
          generateBalancedPrediction_def computeTier_def Date_now_def Let_def
          split: sum.splits)
qed

lemma runTier_hit:
  assumes "Map_get (predictionCache s) (tierKey tier input) = Some e"
    and "clock env (reads s) - timestamp e < CACHE_TTL"
  shows "runTier tier env s input =
           Inr ((result e)\<lparr>fromCache := Some True\<rparr>, s\<lparr>reads := Suc (reads s)\<rparr>)"
  using assms
  by (cases tier)
     (auto simp: runTier_def tierKey_def generateFastPrediction_def
        generateBalancedPrediction_def getCachedPrediction_cases)

lemma runTier_expired:
  assumes "Map_get (predictionCache s) (tierKey tier input) = Some e"
    and "CACHE_TTL \<le> clock env (reads s) - timestamp e"
    and "computeTier tier env input
           (clock env (reads s + 2) - clock env (reads s + 1)) = Some r"
  shows "\<exists>s2. runTier tier env s input = Inr (r, s2)"
  using assms
  by (cases tier)
     (auto simp: runTier_def tierKey_def generateFastPrediction_def
        generateBalancedPrediction_def getCachedPrediction_cases computeTier_def
        Date_now_def Let_def split: sum.splits)

text \<open>With no entry under the fast key and a rating provider that answers, the fast tier computes.\<close>

lemma generateFastPrediction_computes:
  assumes "calculateWinProbability env (team1Id input) (team2Id input) (format input) = Inr probs"
    and "Map_get (predictionCache s) (fastCacheKey input) = None"
  shows "\<exists>t s'. generateFastPrediction env s input = Inr (fastResult input probs t, s')"
  using assms
  by (auto simp: generateFastPrediction_def getCachedPrediction_cases Date_now_def Let_def)

lemma generateFastPrediction_miss:
  assumes "calculateWinProbability env (team1Id input) (team2Id input) (format input) = Inr probs"
    and "Map_get (predictionCache s) (fastCacheKey input) = None"
  shows "fst (projr (generateFastPrediction env s input)) =
           fastResult input probs (clock env (Suc (reads s)) - clock env (reads s))"
  using assms
  by (simp add: generateFastPrediction_def getCachedPrediction_cases Date_now_def Let_def)

text \<open>No operation of the class takes the map past its capacity.\<close>

lemma generateFastPrediction_bound:
  assumes "length (predictionCache s) \<le> 100"
    and "generateFastPrediction env s input = Inr (r, s')"
  shows "length (predictionCache s') \<le> 100"
proof -
  obtain c s1 where g: "getCachedPrediction env s (fastCacheKey input) = (c, s1)"
    by fastforce
  have c1: "predictionCache s1 = predictionCache s"
    using getCachedPrediction_cache [of env s "fastCacheKey input"] g by simp
  show ?thesis
  proof (cases c)
    case (Some x)
    then show ?thesis
      using assms g c1 by (simp add: generateFastPrediction_def)
  next
    case None
    show ?thesis
    proof (cases "calculateWinProbability env (team1Id input) (team2Id input) (format input)")
      case (Inl e)
      then show ?thesis
        using assms g c1 None by (auto simp: generateFastPrediction_def Date_now_def)
    next
      case (Inr p)
      have "length (predictionCache (cacheResult env (s1\<lparr>reads := n\<rparr>) k v)) \<le> 100" for n k v
        using assms(1) c1 by (simp add: cacheResult_bound)
      then show ?thesis
        using assms(2) g None Inr
        by (auto simp: generateFastPrediction_def Date_now_def Let_def)
    qed
  qed
qed

lemma generateBalancedPrediction_bound:
  assumes "length (predictionCache s) \<le> 100"
    and "generateBalancedPrediction env s input = Inr (r, s')"
  shows "length (predictionCache s') \<le> 100"
proof -
  obtain c s1 where g: "getCachedPrediction env s (balancedCacheKey input) = (c, s1)"
    by fastforce
  have c1: "predictionCache s1 = predictionCache s"
    using getCachedPrediction_cache [of env s "balancedCacheKey input"] g by simp
  let ?s2 = "s1\<lparr>reads := Suc (reads s1)\<rparr>"
  have fast: "generateFastPrediction env ?s2 input = Inr (r, s') \<Longrightarrow> ?thesis"
    using generateFastPrediction_bound [of ?s2 env input r s'] assms(1) c1 by simp
  show ?thesis
  proof (cases c)
    case (Some x)
    then show ?thesis
      using assms g c1 by (simp add: generateBalancedPrediction_def)
  next
    case None
    show ?thesis
    proof (cases "calculateWinProbability env (team1Id input) (team2Id input) (format input)")
      case (Inl e)
      then show ?thesis
        using assms(2) g None fast by (simp add: generateBalancedPrediction_def Date_now_def)
    next
      case (Inr p)
      show ?thesis
      proof (cases "generateEnhancedPrediction env input
                      (eloTeam1WinProb p, eloTeam2WinProb p, eloDrawProb p)")
        case (Inl e)
        then show ?thesis
          using assms(2) g None Inr fast
          by (simp add: generateBalancedPrediction_def Date_now_def)
      next
        case enh: (Inr x)
        have "length (predictionCache (cacheResult env (s1\<lparr>reads := n\<rparr>) k v)) \<le> 100" for n k v
          using assms(1) c1 by (simp add: cacheResult_bound)
        then show ?thesis
          using assms(2) g None Inr enh
          by (auto simp: generateBalancedPrediction_def Date_now_def Let_def)
      qed
    qed
  qed
qed

lemma predict_bound:
  assumes "length (predictionCache s) \<le> 100"
    and "predict env s input mode = Inr (r, s')"
  shows "length (predictionCache s') \<le> 100"
  using assms generateFastPrediction_bound [of s env input r s']
    generateBalancedPrediction_bound [of s env input r s']
  by (cases mode) (simp_all add: predict_def generateSmartPrediction_def split: if_splits)

subsection \<open>The importance rule\<close>

lemma startsWith_prefix: "startsWith s w \<longleftrightarrow> prefix w s"
  by (induction s w rule: startsWith.induct) auto

lemma includes_str_sublist: "includes_str s w \<longleftrightarrow> sublist w s"
  by (induction s) (auto simp: startsWith_prefix sublist_Cons_right)

lemma isImportantMatch_sublist:
  "isImportantMatch input \<longleftrightarrow>
     (\<exists>t. tournament input = Some t \<and>
          (sublist ''world'' (toLowerCase t) \<or> sublist ''final'' (toLowerCase t))) \<or>
     (\<exists>c. seriesContext input = Some c \<and>
          (sublist ''final'' (toLowerCase c) \<or> sublist ''semi'' (toLowerCase c)))"
  by (auto simp: isImportantMatch_def fieldIncludes_def includes_str_sublist
           split: option.splits)

subsection \<open>The tiers on a fresh predictor with providers that answer\<close>

lemma fast_sample:
  "generateFastPrediction sampleEnv freshState input =
     Inr (fastResult input sampleProbs 1,
          \<lparr>predictionCache =
             [(fastCacheKey input,
               \<lparr>result = fastResult input sampleProbs 1, timestamp = 1002\<rparr>)],
           reads = 3\<rparr>)"
  by (simp add: generateFastPrediction_def getCachedPrediction_def cacheResult_def
        Date_now_def sampleEnv_def freshState_def Let_def)

lemma balanced_sample:
  "generateBalancedPrediction sampleEnv freshState input =
     Inr (balancedResult input sampleEnhanced 1,
          \<lparr>predictionCache =
             [(balancedCacheKey input,
               \<lparr>result = balancedResult input sampleEnhanced 1, timestamp = 1002\<rparr>)],
           reads = 3\<rparr>)"
  by (simp add: generateBalancedPrediction_def getCachedPrediction_def cacheResult_def
        Date_now_def sampleEnv_def freshState_def Let_def)

lemma fast_neq_balanced_sample:
  "generateFastPrediction sampleEnv freshState input \<noteq>
   generateBalancedPrediction sampleEnv freshState input"
  by (simp add: fast_sample balanced_sample fastResult_def balancedResult_def)

subsection \<open>Where the invariant of the probabilities is kept\<close>

text \<open>
  A tier hands on what its provider gave, so the invariant of the provider's triple is the
  invariant of the result whenever the provider's draw probability is not 0; the static
  fallback satisfies it always.
\<close>

lemma fastResult_valid:
  "validProbabilities (eloTeam1WinProb probs) (eloTeam2WinProb probs) (eloDrawProb probs) \<Longrightarrow>
   eloDrawProb probs \<noteq> 0 \<Longrightarrow>
   validProbabilities (team1WinProb (fastResult input probs t))
     (team2WinProb (fastResult input probs t)) (drawProb (fastResult input probs t))"
  by (simp add: fastResult_def js_or_def validProbabilities_def)

lemma balancedResult_valid:
  "validProbabilities (enhancedTeam1WinProb enh) (enhancedTeam2WinProb enh)
     (enhancedDrawProb enh) \<Longrightarrow>
   enhancedDrawProb enh \<noteq> 0 \<Longrightarrow>
   validProbabilities (team1WinProb (balancedResult input enh t))
     (team2WinProb (balancedResult input enh t)) (drawProb (balancedResult input enh t))"
  by (simp add: balancedResult_def js_or_def validProbabilities_def)

lemma generateBasicFallback_valid:
  "validProbabilities (team1WinProb (generateBasicFallback input t))
     (team2WinProb (generateBasicFallback input t)) (drawProb (generateBasicFallback input t))"
  by (simp add: generateBasicFallback_def validProbabilities_def)

section \<open>The properties\<close>

subsection \<open>C1: the probabilities of a result\<close>

text \<open>
  C1 says that every tier's result keeps the three probabilities in [0, 1] and their sum
  in [0.99, 1.01] whenever the provider's own triple does, a provider draw probability of 0
  included. The code builds \<open>drawProb\<close> as \<open>provider.drawProb || 0.02\<close>, and 0 is falsy: a
  provider triple 0.6 / 0.4 / 0, which satisfies the invariant, comes out of the fast tier
  as 0.6 / 0.4 / 0.02 with sum 1.02, and the balanced tier does the same to the enhanced
  triple 0.62 / 0.38 / 0. The theorem evaluates both tiers at that input. (With a provider
  draw probability other than 0 the invariant is kept: \<open>fastResult_valid\<close>,
  \<open>balancedResult_valid\<close>, \<open>generateBasicFallback_valid\<close>.)
\<close>

theorem zero_draw_mass_breaks_sum:
  "(\<exists>probs. calculateWinProbability sampleEnv (team1Id sampleInput) (team2Id sampleInput)
              (format sampleInput) = Inr probs \<and>
      validProbabilities (eloTeam1WinProb probs) (eloTeam2WinProb probs) (eloDrawProb probs)) \<and>
   (\<exists>r s'. generateFastPrediction sampleEnv freshState sampleInput = Inr (r, s') \<and>
      team1WinProb r + team2WinProb r + drawProb r = 1.02 \<and>
      \<not> validProbabilities (team1WinProb r) (team2WinProb r) (drawProb r)) \<and>
   validProbabilities (enhancedTeam1WinProb sampleEnhanced) (enhancedTeam2WinProb sampleEnhanced)
      (enhancedDrawProb sampleEnhanced) \<and>
   (\<exists>r s'. generateBalancedPrediction sampleEnv freshState sampleInput = Inr (r, s') \<and>
      team1WinProb r + team2WinProb r + drawProb r = 1.02 \<and>
      \<not> validProbabilities (team1WinProb r) (team2WinProb r) (drawProb r))"
proof -
  have "\<exists>probs. calculateWinProbability sampleEnv (team1Id sampleInput) (team2Id sampleInput)
              (format sampleInput) = Inr probs \<and>
      validProbabilities (eloTeam1WinProb probs) (eloTeam2WinProb probs) (eloDrawProb probs)"
    by (simp add: sampleEnv_def sampleProbs_def validProbabilities_def)
  moreover have "\<exists>r s'. generateFastPrediction sampleEnv freshState sampleInput = Inr (r, s') \<and>
      team1WinProb r + team2WinProb r + drawProb r = 1.02 \<and>
      \<not> validProbabilities (team1WinProb r) (team2WinProb r) (drawProb r)"
    by (simp add: fast_sample fastResult_def sampleProbs_def js_or_def validProbabilities_def)
  moreover have "validProbabilities (enhancedTeam1WinProb sampleEnhanced)
      (enhancedTeam2WinProb sampleEnhanced) (enhancedDrawProb sampleEnhanced)"
    by (simp add: sampleEnhanced_def validProbabilities_def)
  moreover have "\<exists>r s'. generateBalancedPrediction sampleEnv freshState sampleInput = Inr (r, s') \<and>
      team1WinProb r + team2WinProb r + drawProb r = 1.02 \<and>
      \<not> validProbabilities (team1WinProb r) (team2WinProb r) (drawProb r)"
    by (simp add: balanced_sample balancedResult_def sampleEnhanced_def js_or_def
          validProbabilities_def)
  ultimately show ?thesis by blast
qed

subsection \<open>C2: what smart mode looks for\<close>

text \<open>
  C2, as amended: smart mode (\<open>predict\<close> with mode \<open>smart\<close>, hence the default time
  constraint) goes to the balanced tier exactly when the lower-cased tournament contains
  \<open>world\<close> or \<open>final\<close>, or the lower-cased series context contains \<open>final\<close> or \<open>semi\<close>, and
  to the fast tier otherwise; an absent field matches nothing. A tournament
  \<open>ICC World Cup Final\<close> goes to balanced; a tournament \<open>Friendly T20\<close> with no \<open>final\<close> or
  \<open>semi\<close> in the series context goes to fast.
\<close>

theorem smart_routing:
  "predict env s input Mode_smart =
     (if isImportantMatch input then generateBalancedPrediction env s input
      else generateFastPrediction env s input) \<and>
   (isImportantMatch input \<longleftrightarrow>
     (\<exists>t. tournament input = Some t \<and>
          (sublist ''world'' (toLowerCase t) \<or> sublist ''final'' (toLowerCase t))) \<or>
     (\<exists>c. seriesContext input = Some c \<and>
          (sublist ''final'' (toLowerCase c) \<or> sublist ''semi'' (toLowerCase c)))) \<and>
   (tournament input = Some ''ICC World Cup Final'' \<longrightarrow>
      predict env s input Mode_smart = generateBalancedPrediction env s input) \<and>
   (tournament input = Some ''Friendly T20'' \<and>
    \<not> fieldIncludes (seriesContext input) ''final'' \<and>
    \<not> fieldIncludes (seriesContext input) ''semi'' \<longrightarrow>
      predict env s input Mode_smart = generateFastPrediction env s input)"
proof -
  have route: "predict env s input Mode_smart =
     (if isImportantMatch input then generateBalancedPrediction env s input
      else generateFastPrediction env s input)"
    by (simp add: predict_def generateSmartPrediction_def)
  have "isImportantMatch input" if "tournament input = Some ''ICC World Cup Final''"
    using that by (simp add: isImportantMatch_def fieldIncludes_def lower_defs)
  moreover have "\<not> isImportantMatch input"
    if "tournament input = Some ''Friendly T20''"
      and "\<not> fieldIncludes (seriesContext input) ''final''"
      and "\<not> fieldIncludes (seriesContext input) ''semi''"
    using that by (simp add: isImportantMatch_def fieldIncludes_def lower_defs)
  ultimately show ?thesis
    using route isImportantMatch_sublist [of input] by auto
qed

text \<open>The two requests the specification names, on a fresh predictor.\<close>

theorem smart_routing_witness:
  "tournament worldCupInput = Some ''ICC World Cup Final'' \<and>
   predict sampleEnv freshState worldCupInput Mode_smart =
     generateBalancedPrediction sampleEnv freshState worldCupInput \<and>
   tournament sampleInput = Some ''Friendly T20'' \<and>
   \<not> fieldIncludes (seriesContext sampleInput) ''final'' \<and>
   \<not> fieldIncludes (seriesContext sampleInput) ''semi'' \<and>
   predict sampleEnv freshState sampleInput Mode_smart =
     generateFastPrediction sampleEnv freshState sampleInput"
proof -
  have 1: "tournament worldCupInput = Some ''ICC World Cup Final''"
    by (simp add: worldCupInput_def)
  have 2: "tournament sampleInput = Some ''Friendly T20''"
    by (simp add: sampleInput_def)
  have 3: "\<not> fieldIncludes (seriesContext sampleInput) ''final''"
      "\<not> fieldIncludes (seriesContext sampleInput) ''semi''"
    by (simp_all add: sampleInput_def fieldIncludes_def)
  show ?thesis
    using smart_routing [of sampleEnv freshState worldCupInput]
      smart_routing [of sampleEnv freshState sampleInput] 1 2 3
    by blast
qed

text \<open>
  The claim as first stated looks for every word in both fields. A tournament \<open>Semi Cup\<close>
  contains \<open>semi\<close>, so that rule sends it to the balanced tier; the code looks for \<open>semi\<close>
  in the series context only, and sends it to the fast tier.
\<close>

theorem smart_routing_counterexample:
  "matchesAnyMarker semiCupInput \<and>
   predict sampleEnv freshState semiCupInput Mode_smart =
     generateFastPrediction sampleEnv freshState semiCupInput \<and>
   predict sampleEnv freshState semiCupInput Mode_smart \<noteq>
     generateBalancedPrediction sampleEnv freshState semiCupInput"
proof -
  have 1: "matchesAnyMarker semiCupInput"
    by (simp add: matchesAnyMarker_def importanceMarkers_def fieldIncludes_def
          semiCupInput_def sampleInput_def lower_defs)
  have 2: "\<not> isImportantMatch semiCupInput"
    by (simp add: isImportantMatch_def fieldIncludes_def semiCupInput_def sampleInput_def
          lower_defs)
  have 3: "predict sampleEnv freshState semiCupInput Mode_smart =
     generateFastPrediction sampleEnv freshState semiCupInput"
    using 2 by (simp add: predict_def generateSmartPrediction_def)
  show ?thesis
    using 1 3 fast_neq_balanced_sample [of semiCupInput] by simp
qed

subsection \<open>C3: predict never raises\<close>

text \<open>
  C3, as amended: for every input, mode, state and pair of providers, \<open>predict\<close> returns a
  result and never an error. When the rating provider throws and the cache holds no entry
  that can still be served under the input's fast key, nor, for a request that goes
  through the balanced tier (balanced mode, or smart mode on an important match), under its
  balanced key, the result is the static fallback, whose accuracy is below 70 and whose
  risk factors are not empty. (The feature provider is not reached once the rating provider
  has thrown.)
\<close>

theorem predict_never_raises:
  "(\<exists>r s'. predict env s input mode = Inr (r, s')) \<and>
   (calculateWinProbability env (team1Id input) (team2Id input) (format input) = Inl e \<and>
    noFreshEntry env s (fastCacheKey input) \<and>
    (mode = Mode_balanced \<or> (mode = Mode_smart \<and> isImportantMatch input) \<longrightarrow>
       noFreshEntry env s (balancedCacheKey input)) \<longrightarrow>
      (\<exists>t s'. predict env s input mode = Inr (generateBasicFallback input t, s') \<and>
         accuracy (generateBasicFallback input t) < 70 \<and>
         riskFactors (generateBasicFallback input t) \<noteq> []))"
proof -
  have "\<exists>r s'. predict env s input mode = Inr (r, s')"
    using generateFastPrediction_returns generateBalancedPrediction_returns
    by (cases mode) (auto simp: predict_def generateSmartPrediction_def)
  moreover have "\<exists>t s'. predict env s input mode = Inr (generateBasicFallback input t, s')"
    if down: "calculateWinProbability env (team1Id input) (team2Id input) (format input) = Inl e"
      and fast: "noFreshEntry env s (fastCacheKey input)"
      and balanced: "mode = Mode_balanced \<or> (mode = Mode_smart \<and> isImportantMatch input) \<longrightarrow>
        noFreshEntry env s (balancedCacheKey input)"
  proof (cases "mode = Mode_balanced \<or> (mode = Mode_smart \<and> isImportantMatch input)")
    case True
    with balanced have "noFreshEntry env s (balancedCacheKey input)" by blast
    from generateBalancedPrediction_fallback [OF down fast this] True show ?thesis
      by (auto simp: predict_def generateSmartPrediction_def)
  next
    case False
    with generateFastPrediction_fallback [OF down fast] show ?thesis
      by (cases mode) (auto simp: predict_def generateSmartPrediction_def)
  qed
  moreover have "accuracy (generateBasicFallback input t) < 70 \<and>
      riskFactors (generateBasicFallback input t) \<noteq> []" for t
    by (simp add: generateBasicFallback_def)
  ultimately show ?thesis by blast
qed

text \<open>
  Both providers throwing, on a cache whose entry for the input has expired: balanced mode
  ends in the static fallback.
\<close>

theorem predict_never_raises_witness:
  "calculateWinProbability allDownLaterEnv (team1Id sampleInput) (team2Id sampleInput)
      (format sampleInput) = Inl (Thrown ''no rating'') \<and>
   noFreshEntry allDownLaterEnv staleState (fastCacheKey sampleInput) \<and>
   noFreshEntry allDownLaterEnv staleState (balancedCacheKey sampleInput) \<and>
   (\<exists>t s'. predict allDownLaterEnv staleState sampleInput Mode_balanced =
              Inr (generateBasicFallback sampleInput t, s'))"
proof -
  have 1: "calculateWinProbability allDownLaterEnv (team1Id sampleInput) (team2Id sampleInput)
      (format sampleInput) = Inl (Thrown ''no rating'')"
    by (simp add: sample_defs)
  have 2: "noFreshEntry allDownLaterEnv staleState (fastCacheKey sampleInput)"
    by (simp add: noFreshEntry_def sample_defs fastCacheKey_def CACHE_TTL_def)
  have 3: "noFreshEntry allDownLaterEnv staleState (balancedCacheKey sampleInput)"
    by (simp add: noFreshEntry_def sample_defs balancedCacheKey_def)
  show ?thesis
    using predict_never_raises [of allDownLaterEnv staleState sampleInput Mode_balanced
        "Thrown ''no rating''"] 1 2 3
    by blast
qed

text \<open>
  The claim as first stated promises the static fallback whenever the providers fail. After
  a fast prediction has been cached, a balanced request made while both providers throw
  reaches the rating provider, which throws, falls back to the fast tier and is answered
  from the cache: accuracy 78, no risk factors, and not the static fallback.
\<close>

theorem predict_fallback_counterexample:
  "calculateWinProbability allDownEnv (team1Id sampleInput) (team2Id sampleInput)
      (format sampleInput) = Inl (Thrown ''no rating'') \<and>
   generateEnhancedPrediction allDownEnv sampleInput
      (eloTeam1WinProb sampleProbs, eloTeam2WinProb sampleProbs, eloDrawProb sampleProbs) =
      Inl (Thrown ''features unavailable'') \<and>
   generateFastPrediction sampleEnv freshState sampleInput =
      Inr (fastResult sampleInput sampleProbs 1, warmFastState) \<and>
   predict allDownEnv warmFastState sampleInput Mode_balanced =
      Inr ((fastResult sampleInput sampleProbs 1)\<lparr>fromCache := Some True\<rparr>,
           warmFastState\<lparr>reads := 5\<rparr>) \<and>
   accuracy ((fastResult sampleInput sampleProbs 1)\<lparr>fromCache := Some True\<rparr>) = 78 \<and>
   riskFactors ((fastResult sampleInput sampleProbs 1)\<lparr>fromCache := Some True\<rparr>) = [] \<and>
   (fastResult sampleInput sampleProbs 1)\<lparr>fromCache := Some True\<rparr> \<noteq>
      generateBasicFallback sampleInput 0"
proof -
  have 1: "calculateWinProbability allDownEnv (team1Id sampleInput) (team2Id sampleInput)
      (format sampleInput) = Inl (Thrown ''no rating'')"
    by (simp add: sample_defs)
  have 2: "generateEnhancedPrediction allDownEnv sampleInput
      (eloTeam1WinProb sampleProbs, eloTeam2WinProb sampleProbs, eloDrawProb sampleProbs) =
      Inl (Thrown ''features unavailable'')"
    by (simp add: sample_defs)
  have 3: "generateFastPrediction sampleEnv freshState sampleInput =
      Inr (fastResult sampleInput sampleProbs 1, warmFastState)"
    by (simp add: fast_sample warmFastState_def fastCacheKey_def sampleInput_def)
  have 4: "predict allDownEnv warmFastState sampleInput Mode_balanced =
      Inr ((fastResult sampleInput sampleProbs 1)\<lparr>fromCache := Some True\<rparr>,
           warmFastState\<lparr>reads := 5\<rparr>)"
    by (simp add: predict_def generateBalancedPrediction_def generateFastPrediction_def
          getCachedPrediction_cases Date_now_def balancedCacheKey_def fastCacheKey_def
          CACHE_TTL_def allDownEnv_def featuresDownEnv_def sampleEnv_def warmFastState_def
          sampleInput_def)
  have 5: "accuracy ((fastResult sampleInput sampleProbs 1)\<lparr>fromCache := Some True\<rparr>) = 78"
      "riskFactors ((fastResult sampleInput sampleProbs 1)\<lparr>fromCache := Some True\<rparr>) = []"
      "(fastResult sampleInput sampleProbs 1)\<lparr>fromCache := Some True\<rparr> \<noteq>
         generateBasicFallback sampleInput 0"
    by (simp_all add: fastResult_def generateBasicFallback_def sampleInput_def)
  from 1 2 3 4 5 show ?thesis by blast
qed

subsection \<open>C4: the time constraint\<close>

text \<open>
  C4, as amended: of the three time constraints of the smart-prediction operation, \<open>fast\<close>
  gives exactly the fast-tier computation and \<open>accurate\<close> exactly the balanced-tier
  computation, whatever the tournament and series context say; \<open>balanced\<close>, the default,
  forces no tier: it applies the importance rule, and gives the balanced-tier computation
  for an important match and the fast-tier computation otherwise.
\<close>

theorem timeConstraint_routing:
  "generateSmartPrediction env s input TC_fast = generateFastPrediction env s input \<and>
   generateSmartPrediction env s input TC_accurate = generateBalancedPrediction env s input \<and>
   (isImportantMatch input \<longrightarrow>
      generateSmartPrediction env s input TC_balanced =
        generateBalancedPrediction env s input) \<and>
   (\<not> isImportantMatch input \<longrightarrow>
      generateSmartPrediction env s input TC_balanced = generateFastPrediction env s input)"
  by (simp add: generateSmartPrediction_def)

theorem timeConstraint_routing_witness:
  "isImportantMatch worldCupInput \<and>
   generateSmartPrediction sampleEnv freshState worldCupInput TC_balanced =
     generateBalancedPrediction sampleEnv freshState worldCupInput \<and>
   \<not> isImportantMatch sampleInput \<and>
   generateSmartPrediction sampleEnv freshState sampleInput TC_balanced =
     generateFastPrediction sampleEnv freshState sampleInput"
proof -
  have 1: "isImportantMatch worldCupInput"
    by (simp add: isImportantMatch_def fieldIncludes_def worldCupInput_def sampleInput_def
          lower_defs)
  have 2: "\<not> isImportantMatch sampleInput"
    by (simp add: isImportantMatch_def fieldIncludes_def sampleInput_def lower_defs)
  show ?thesis
    using timeConstraint_routing [of sampleEnv freshState worldCupInput]
      timeConstraint_routing [of sampleEnv freshState sampleInput] 1 2
    by blast
qed

text \<open>
  The claim as first stated has \<open>balanced\<close> force the balanced tier. For the tournament
  \<open>Friendly T20\<close> the constraint \<open>balanced\<close> gives the fast-tier computation, which differs
  from the balanced-tier one.
\<close>

theorem timeConstraint_balanced_counterexample:
  "\<not> isImportantMatch sampleInput \<and>
   generateSmartPrediction sampleEnv freshState sampleInput TC_balanced =
     generateFastPrediction sampleEnv freshState sampleInput \<and>
   generateSmartPrediction sampleEnv freshState sampleInput TC_balanced \<noteq>
     generateBalancedPrediction sampleEnv freshState sampleInput"
proof -
  have 2: "\<not> isImportantMatch sampleInput"
    by (simp add: isImportantMatch_def fieldIncludes_def sampleInput_def lower_defs)
  then have "generateSmartPrediction sampleEnv freshState sampleInput TC_balanced =
     generateFastPrediction sampleEnv freshState sampleInput"
    by (simp add: generateSmartPrediction_def)
  then show ?thesis
    using 2 fast_neq_balanced_sample [of sampleInput] by simp
qed

subsection \<open>C5: a repeated call within the time to live\<close>

text \<open>
  C5, as amended: take a call of a tier (fast or balanced) whose result is cached under
  the tier's own key, that is, a call answered from that entry or computed by the tier's
  own providers, in a state within capacity (as every reachable state is, \<open>predict_bound\<close>).
  After it the map holds an entry for the key. Let the same tier be called again with the
  same input, in any later state in which that entry still stands under the key (it has
  been neither evicted by later insertions nor cleared), whatever the providers then do.
  If the lookup reads the clock strictly less than \<open>CACHE_TTL\<close> (five minutes) after the
  entry's timestamp, the second call returns the first result with \<open>fromCache\<close> set to
  true, every other field equal. A lookup at or after \<open>CACHE_TTL\<close> is a miss, and the tier
  then returns what its providers compute at that time.
\<close>

theorem repeated_call_within_ttl:
  assumes inv: "length (predictionCache s) \<le> 100"
    and first: "runTier tier env1 s input = Inr (r1, s1)"
    and own: "fst (getCachedPrediction env1 s (tierKey tier input)) \<noteq> None \<or>
              computeTier tier env1 input 0 \<noteq> None"
    and still: "Map_get (predictionCache s2) (tierKey tier input) =
                Map_get (predictionCache s1) (tierKey tier input)"
  shows "\<exists>e. Map_get (predictionCache s1) (tierKey tier input) = Some e \<and>
           (clock env2 (reads s2) - timestamp e < CACHE_TTL \<longrightarrow>
              runTier tier env2 s2 input =
                Inr (r1\<lparr>fromCache := Some True\<rparr>, s2\<lparr>reads := Suc (reads s2)\<rparr>)) \<and>
           (CACHE_TTL \<le> clock env2 (reads s2) - timestamp e \<longrightarrow>
              fst (getCachedPrediction env2 s2 (tierKey tier input)) = None \<and>
              (\<forall>r. computeTier tier env2 input
                      (clock env2 (reads s2 + 2) - clock env2 (reads s2 + 1)) = Some r \<longrightarrow>
                   (\<exists>s3. runTier tier env2 s2 input = Inr (r, s3))))"
proof -
  obtain e where e1: "Map_get (predictionCache s1) (tierKey tier input) = Some e"
    and res: "(result e)\<lparr>fromCache := Some True\<rparr> = r1\<lparr>fromCache := Some True\<rparr>"
    using runTier_first_cached [OF inv first own] by blast
  from e1 still have e2: "Map_get (predictionCache s2) (tierKey tier input) = Some e"
    by simp
  have "runTier tier env2 s2 input =
          Inr (r1\<lparr>fromCache := Some True\<rparr>, s2\<lparr>reads := Suc (reads s2)\<rparr>)"
    if "clock env2 (reads s2) - timestamp e < CACHE_TTL"
    using runTier_hit [OF e2 that] res by simp
  moreover have "fst (getCachedPrediction env2 s2 (tierKey tier input)) = None"
    if "CACHE_TTL \<le> clock env2 (reads s2) - timestamp e"
    using that e2 by (simp add: getCachedPrediction_cases)
  moreover have "\<exists>s3. runTier tier env2 s2 input = Inr (r, s3)"
    if "CACHE_TTL \<le> clock env2 (reads s2) - timestamp e"
      and "computeTier tier env2 input
             (clock env2 (reads s2 + 2) - clock env2 (reads s2 + 1)) = Some r" for r
    using runTier_expired [OF e2 that] .
  ultimately show ?thesis using e1 by blast
qed

text \<open>
  A fast prediction on a fresh predictor, then a balanced prediction of the same match,
  which adds its own entry and leaves the fast one; then the fast request again, a few
  milliseconds later (served from the cache) and more than five minutes later (computed
  again).
\<close>

theorem repeated_call_within_ttl_witness:
  "length (predictionCache freshState) \<le> 100 \<and>
   computeTier Fast sampleEnv sampleInput 0 \<noteq> None \<and>
   runTier Fast sampleEnv freshState sampleInput =
     Inr (fastResult sampleInput sampleProbs 1, warmFastState) \<and>
   generateBalancedPrediction sampleEnv warmFastState sampleInput =
     Inr (balancedResult sampleInput sampleEnhanced 1, busyState) \<and>
   Map_get (predictionCache busyState) (tierKey Fast sampleInput) =
     Map_get (predictionCache warmFastState) (tierKey Fast sampleInput) \<and>
   fromCache (fastResult sampleInput sampleProbs 1) = None \<and>
   runTier Fast sampleEnv busyState sampleInput =
     Inr ((fastResult sampleInput sampleProbs 1)\<lparr>fromCache := Some True\<rparr>,
          busyState\<lparr>reads := 7\<rparr>) \<and>
   fst (getCachedPrediction laterEnv busyState (tierKey Fast sampleInput)) = None \<and>
   (\<exists>s3. runTier Fast laterEnv busyState sampleInput =
      Inr (fastResult sampleInput sampleProbs 1, s3))"
proof -
  let ?r1 = "fastResult sampleInput sampleProbs 1"
  have inv: "length (predictionCache freshState) \<le> 100"
    by (simp add: freshState_def)
  have first: "runTier Fast sampleEnv freshState sampleInput = Inr (?r1, warmFastState)"
    by (simp add: runTier_def fast_sample warmFastState_def fastCacheKey_def sampleInput_def)
  have between: "generateBalancedPrediction sampleEnv warmFastState sampleInput =
      Inr (balancedResult sampleInput sampleEnhanced 1, busyState)"
    by (simp add: generateBalancedPrediction_def getCachedPrediction_cases cacheResult_def
          Date_now_def Let_def balancedCacheKey_def sampleEnv_def warmFastState_def
          busyState_def sampleInput_def)
  have comp: "computeTier Fast sampleEnv sampleInput 0 \<noteq> None"
    by (simp add: computeTier_def sample_defs)
  have own: "fst (getCachedPrediction sampleEnv freshState (tierKey Fast sampleInput)) \<noteq> None \<or>
      computeTier Fast sampleEnv sampleInput 0 \<noteq> None"
    using comp by simp
  have key: "Map_get (predictionCache warmFastState) (tierKey Fast sampleInput) =
      Some \<lparr>result = ?r1, timestamp = 1002\<rparr>"
    by (simp add: tierKey_def fastCacheKey_def warmFastState_def sampleInput_def)
  have still: "Map_get (predictionCache busyState) (tierKey Fast sampleInput) =
      Map_get (predictionCache warmFastState) (tierKey Fast sampleInput)"
    by (simp add: tierKey_def fastCacheKey_def warmFastState_def busyState_def sampleInput_def)
  have soon: "clock sampleEnv (reads busyState) - 1002 < CACHE_TTL"
    by (simp add: sampleEnv_def busyState_def CACHE_TTL_def)
  have late: "CACHE_TTL \<le> clock laterEnv (reads busyState) - 1002"
    by (simp add: laterEnv_def sampleEnv_def busyState_def CACHE_TTL_def)
  have again: "computeTier Fast laterEnv sampleInput
      (clock laterEnv (reads busyState + 2) - clock laterEnv (reads busyState + 1)) =
      Some ?r1"
    by (simp add: computeTier_def laterEnv_def sampleEnv_def busyState_def)
  have hit: "runTier Fast sampleEnv busyState sampleInput =
      Inr (?r1\<lparr>fromCache := Some True\<rparr>, busyState\<lparr>reads := 7\<rparr>)"
    using repeated_call_within_ttl [OF inv first own still, of sampleEnv] key soon
    by (auto simp: busyState_def)
  have miss: "fst (getCachedPrediction laterEnv busyState (tierKey Fast sampleInput)) = None \<and>
      (\<exists>s3. runTier Fast laterEnv busyState sampleInput = Inr (?r1, s3))"
    using repeated_call_within_ttl [OF inv first own still, of laterEnv] key late again by auto
  have "fromCache ?r1 = None" by (simp add: fastResult_def)
  with inv comp first between still hit miss show ?thesis by blast
qed

text \<open>
  The claim as first stated asks only that the second call come less than five minutes
  after the first result was cached. Three runs on the sample input, each with the second
  call a few milliseconds after the first, show that this is not enough. In the first the
  cache is cleared between the two fast calls; in the second one more insertion into a
  cache at capacity evicts the entry between them: either way the second call computes
  again and carries no \<open>fromCache\<close> mark. In the third the feature provider throws during
  the first balanced call, so the result is the fast tier's and is cached under the fast
  key only; the second balanced call, with the feature provider back, returns the
  ensemble's result, which differs in more than the mark.
\<close>

theorem repeated_call_counterexample:
  "runTier Fast sampleEnv freshState sampleInput =
     Inr (fastResult sampleInput sampleProbs 1, warmFastState) \<and>
   clock sampleEnv (reads (clearCache warmFastState)) - 1002 < CACHE_TTL \<and>
   runTier Fast sampleEnv (clearCache warmFastState) sampleInput =
     Inr (fastResult sampleInput sampleProbs 1,
          \<lparr>predictionCache =
             [(''fast_IND_AUS_t20'',
               \<lparr>result = fastResult sampleInput sampleProbs 1, timestamp = 1005\<rparr>)],
           reads = 6\<rparr>) \<and>
   fastResult sampleInput sampleProbs 1 \<noteq>
     (fastResult sampleInput sampleProbs 1)\<lparr>fromCache := Some True\<rparr> \<and>
   Map_get (predictionCache crowdedState) ''fast_IND_AUS_t20'' =
     Some \<lparr>result = fastResult sampleInput sampleProbs 1, timestamp = 1002\<rparr> \<and>
   Map_get (predictionCache (cacheResult sampleEnv crowdedState ''new''
       (fastResult sampleInput sampleProbs 1))) ''fast_IND_AUS_t20'' = None \<and>
   clock sampleEnv (reads (cacheResult sampleEnv crowdedState ''new''
       (fastResult sampleInput sampleProbs 1))) - 1002 < CACHE_TTL \<and>
   fst (projr (runTier Fast sampleEnv
       (cacheResult sampleEnv crowdedState ''new'' (fastResult sampleInput sampleProbs 1))
       sampleInput)) = fastResult sampleInput sampleProbs 1 \<and>
   runTier Balanced featuresDownEnv freshState sampleInput =
     Inr (fastResult sampleInput sampleProbs 1, degradedState) \<and>
   Map_get (predictionCache degradedState) ''fast_IND_AUS_t20'' =
     Some \<lparr>result = fastResult sampleInput sampleProbs 1, timestamp = 1003\<rparr> \<and>
   clock sampleEnv (reads degradedState) - 1003 < CACHE_TTL \<and>
   fst (projr (runTier Balanced sampleEnv degradedState sampleInput)) =
     balancedResult sampleInput sampleEnhanced 1 \<and>
   engineUsed (balancedResult sampleInput sampleEnhanced 1) \<noteq>
     engineUsed ((fastResult sampleInput sampleProbs 1)\<lparr>fromCache := Some True\<rparr>)"
proof -
  let ?r1 = "fastResult sampleInput sampleProbs 1"
  let ?evicted = "cacheResult sampleEnv crowdedState ''new'' ?r1"
  have first: "runTier Fast sampleEnv freshState sampleInput = Inr (?r1, warmFastState)"
    by (simp add: runTier_def fast_sample warmFastState_def fastCacheKey_def sampleInput_def)
  have c1: "clock sampleEnv (reads (clearCache warmFastState)) - 1002 < CACHE_TTL"
    by (simp add: clearCache_def warmFastState_def sampleEnv_def CACHE_TTL_def)
  have c2: "runTier Fast sampleEnv (clearCache warmFastState) sampleInput =
     Inr (?r1,
          \<lparr>predictionCache = [(''fast_IND_AUS_t20'', \<lparr>result = ?r1, timestamp = 1005\<rparr>)],
           reads = 6\<rparr>)"
    by (simp add: runTier_def generateFastPrediction_def getCachedPrediction_cases
          cacheResult_def Date_now_def Let_def fastCacheKey_def clearCache_def
          warmFastState_def sampleEnv_def sampleInput_def)
  have c3: "?r1 \<noteq> ?r1\<lparr>fromCache := Some True\<rparr>"
    by (simp add: fastResult_def)
  have e1: "Map_get (predictionCache crowdedState) ''fast_IND_AUS_t20'' =
      Some \<lparr>result = ?r1, timestamp = 1002\<rparr>"
    by (simp add: crowdedState_def)
  have new: "''new'' \<notin> set (Map_keys (predictionCache crowdedState))"
    by (auto simp: crowdedState_def Map_keys_def)
  have cache: "predictionCache ?evicted =
      tl (predictionCache crowdedState) @ [(''new'', \<lparr>result = ?r1, timestamp = 1200\<rparr>)]"
    using new
    by (simp add: cacheResult_cache Map_set_new Let_def)
       (simp add: crowdedState_def sampleEnv_def)
  have e2: "Map_get (predictionCache ?evicted) ''fast_IND_AUS_t20'' = None"
    unfolding Map_get_None_iff cache by (auto simp: crowdedState_def Map_keys_def)
  have e3: "clock sampleEnv (reads ?evicted) - 1002 < CACHE_TTL"
    by (simp add: cacheResult_reads crowdedState_def sampleEnv_def CACHE_TTL_def)
  have e4: "fst (projr (runTier Fast sampleEnv ?evicted sampleInput)) = ?r1"
    using generateFastPrediction_miss [of sampleEnv sampleInput sampleProbs ?evicted] e2
    by (simp add: runTier_def fastCacheKey_def sampleEnv_def sampleInput_def)
  have d1: "runTier Balanced featuresDownEnv freshState sampleInput = Inr (?r1, degradedState)"
    by (simp add: runTier_def generateBalancedPrediction_def generateFastPrediction_def
          getCachedPrediction_cases cacheResult_def Date_now_def Let_def balancedCacheKey_def
          fastCacheKey_def featuresDownEnv_def sampleEnv_def freshState_def degradedState_def
          sampleInput_def)
  have d2: "Map_get (predictionCache degradedState) ''fast_IND_AUS_t20'' =
      Some \<lparr>result = ?r1, timestamp = 1003\<rparr>"
    by (simp add: degradedState_def)
  have d3: "clock sampleEnv (reads degradedState) - 1003 < CACHE_TTL"
    by (simp add: degradedState_def sampleEnv_def CACHE_TTL_def)
  have d4: "fst (projr (runTier Balanced sampleEnv degradedState sampleInput)) =
      balancedResult sampleInput sampleEnhanced 1"
    by (simp add: runTier_def generateBalancedPrediction_def getCachedPrediction_cases
          Date_now_def Let_def balancedCacheKey_def sampleEnv_def degradedState_def
          sampleInput_def)
  have d5: "engineUsed (balancedResult sampleInput sampleEnhanced 1) \<noteq>
      engineUsed (?r1\<lparr>fromCache := Some True\<rparr>)"
    by (simp add: balancedResult_def fastResult_def)
  from first c1 c2 c3 e1 e2 e3 e4 d1 d2 d3 d4 d5 show ?thesis by blast
qed

subsection \<open>C6: the balanced tier without its feature provider\<close>

text \<open>
  C6, as amended: when the feature provider throws whatever it is given, and the balanced
  tier's own lookup is a miss (no entry under the balanced key, or an expired one), the
  balanced tier returns exactly what the fast-tier operation returns for the same input on
  the same cache, called at the point where the balanced tier gives up (after its lookup
  and its reading of the start time). With a rating provider that answers and no fast
  entry in the cache, that is the fast tier's own object, engine and accuracy included.
\<close>

theorem balanced_falls_back_to_fast:
  assumes "fst (getCachedPrediction env s (balancedCacheKey input)) = None"
    and "\<forall>prior. isl (generateEnhancedPrediction env input prior)"
  shows "generateBalancedPrediction env s input =
           generateFastPrediction env
             (snd (Date_now env (snd (getCachedPrediction env s (balancedCacheKey input)))))
             input \<and>
         predictionCache
             (snd (Date_now env (snd (getCachedPrediction env s (balancedCacheKey input))))) =
           predictionCache s \<and>
         (\<forall>probs. calculateWinProbability env (team1Id input) (team2Id input) (format input) =
               Inr probs \<and>
             Map_get (predictionCache s) (fastCacheKey input) = None \<longrightarrow>
             (\<exists>t s'. generateBalancedPrediction env s input =
                Inr (fastResult input probs t, s')))"
proof -
  let ?s2 = "snd (Date_now env (snd (getCachedPrediction env s (balancedCacheKey input))))"
  have "generateEnhancedPrediction env input prior \<noteq> Inr x" for prior x
    using assms(2) by (metis sum.disc(2))
  then have eq: "generateBalancedPrediction env s input = generateFastPrediction env ?s2 input"
    using assms(1)
    by (auto simp: generateBalancedPrediction_def Let_def
             split: prod.splits option.splits sum.splits)
  have cache: "predictionCache ?s2 = predictionCache s"
    by (simp add: Date_now_def getCachedPrediction_cache)
  have "\<exists>t s'. generateFastPrediction env ?s2 input = Inr (fastResult input probs t, s')"
    if "calculateWinProbability env (team1Id input) (team2Id input) (format input) = Inr probs"
      and "Map_get (predictionCache s) (fastCacheKey input) = None" for probs
    using generateFastPrediction_computes [of env input probs ?s2] that cache by simp
  with eq cache show ?thesis by auto
qed

text \<open>A fresh predictor whose feature provider throws: the balanced tier answers as the fast tier.\<close>

theorem balanced_falls_back_to_fast_witness:
  "fst (getCachedPrediction featuresDownEnv freshState (balancedCacheKey sampleInput)) = None \<and>
   (\<forall>prior. isl (generateEnhancedPrediction featuresDownEnv sampleInput prior)) \<and>
   calculateWinProbability featuresDownEnv (team1Id sampleInput) (team2Id sampleInput)
     (format sampleInput) = Inr sampleProbs \<and>
   Map_get (predictionCache freshState) (fastCacheKey sampleInput) = None \<and>
   generateBalancedPrediction featuresDownEnv freshState sampleInput =
     generateFastPrediction featuresDownEnv \<lparr>predictionCache = [], reads = 1\<rparr> sampleInput \<and>
   (\<exists>t s'. generateBalancedPrediction featuresDownEnv freshState sampleInput =
      Inr (fastResult sampleInput sampleProbs t, s')) \<and>
   engineUsed (fastResult sampleInput sampleProbs 1) = ''Elo Rating System'' \<and>
   accuracy (fastResult sampleInput sampleProbs 1) = 78"
proof -
  have 1: "fst (getCachedPrediction featuresDownEnv freshState (balancedCacheKey sampleInput)) = None"
    by (simp add: getCachedPrediction_def sample_defs)
  have 2: "\<forall>prior. isl (generateEnhancedPrediction featuresDownEnv sampleInput prior)"
    by (simp add: sample_defs)
  have 3: "snd (Date_now featuresDownEnv
             (snd (getCachedPrediction featuresDownEnv freshState (balancedCacheKey sampleInput)))) =
           \<lparr>predictionCache = [], reads = 1\<rparr>"
    by (simp add: getCachedPrediction_def Date_now_def sample_defs)
  have 4: "calculateWinProbability featuresDownEnv (team1Id sampleInput) (team2Id sampleInput)
     (format sampleInput) = Inr sampleProbs"
    by (simp add: sample_defs)
  have 5: "Map_get (predictionCache freshState) (fastCacheKey sampleInput) = None"
    by (simp add: freshState_def)
  have 6: "engineUsed (fastResult sampleInput sampleProbs 1) = ''Elo Rating System''"
      "accuracy (fastResult sampleInput sampleProbs 1) = 78"
    by (simp_all add: fastResult_def sampleInput_def)
  note main = balanced_falls_back_to_fast [OF 1 2]
  have 7: "generateBalancedPrediction featuresDownEnv freshState sampleInput =
     generateFastPrediction featuresDownEnv \<lparr>predictionCache = [], reads = 1\<rparr> sampleInput"
    using main 3 by simp
  have 8: "\<exists>t s'. generateBalancedPrediction featuresDownEnv freshState sampleInput =
      Inr (fastResult sampleInput sampleProbs t, s')"
    using main 4 5 by blast
  from 1 2 4 5 6 7 8 show ?thesis by blast
qed

text \<open>
  The claim as first stated holds the balanced tier to the fast tier's result whenever the
  feature provider fails. After a balanced prediction has been cached, a balanced request
  made while the feature provider throws is answered from the cache with the ensemble's
  result, where the fast tier computes its own.
\<close>

theorem balanced_cached_counterexample:
  "generateEnhancedPrediction featuresDownEnv sampleInput
      (eloTeam1WinProb sampleProbs, eloTeam2WinProb sampleProbs, eloDrawProb sampleProbs) =
      Inl (Thrown ''features unavailable'') \<and>
   generateBalancedPrediction sampleEnv freshState sampleInput =
      Inr (balancedResult sampleInput sampleEnhanced 1, warmBalancedState) \<and>
   generateBalancedPrediction featuresDownEnv warmBalancedState sampleInput =
      Inr ((balancedResult sampleInput sampleEnhanced 1)\<lparr>fromCache := Some True\<rparr>,
           warmBalancedState\<lparr>reads := 4\<rparr>) \<and>
   fst (projr (generateFastPrediction featuresDownEnv warmBalancedState sampleInput)) =
      fastResult sampleInput sampleProbs 1 \<and>
   fst (projr (generateFastPrediction featuresDownEnv (warmBalancedState\<lparr>reads := 5\<rparr>)
      sampleInput)) = fastResult sampleInput sampleProbs 1 \<and>
   engineUsed ((balancedResult sampleInput sampleEnhanced 1)\<lparr>fromCache := Some True\<rparr>) =
      ''Elo + ML Ensemble'' \<and>
   engineUsed (fastResult sampleInput sampleProbs 1) = ''Elo Rating System''"
proof -
  have 1: "generateEnhancedPrediction featuresDownEnv sampleInput
      (eloTeam1WinProb sampleProbs, eloTeam2WinProb sampleProbs, eloDrawProb sampleProbs) =
      Inl (Thrown ''features unavailable'')"
    by (simp add: sample_defs)
  have 2: "generateBalancedPrediction sampleEnv freshState sampleInput =
      Inr (balancedResult sampleInput sampleEnhanced 1, warmBalancedState)"
    by (simp add: balanced_sample warmBalancedState_def balancedCacheKey_def sampleInput_def)
  have 3: "generateBalancedPrediction featuresDownEnv warmBalancedState sampleInput =
      Inr ((balancedResult sampleInput sampleEnhanced 1)\<lparr>fromCache := Some True\<rparr>,
           warmBalancedState\<lparr>reads := 4\<rparr>)"
    by (simp add: generateBalancedPrediction_def getCachedPrediction_cases balancedCacheKey_def
          CACHE_TTL_def featuresDownEnv_def sampleEnv_def warmBalancedState_def sampleInput_def)
  have 4: "fst (projr (generateFastPrediction featuresDownEnv (warmBalancedState\<lparr>reads := n\<rparr>)
      sampleInput)) = fastResult sampleInput sampleProbs 1" for n
    by (simp add: generateFastPrediction_def getCachedPrediction_cases fastCacheKey_def
          Date_now_def Let_def featuresDownEnv_def sampleEnv_def warmBalancedState_def
          sampleInput_def)
  have 5: "fst (projr (generateFastPrediction featuresDownEnv warmBalancedState sampleInput)) =
      fastResult sampleInput sampleProbs 1"
    using 4 [of 3] by (simp add: warmBalancedState_def)
  have 6: "engineUsed ((balancedResult sampleInput sampleEnhanced 1)\<lparr>fromCache := Some True\<rparr>) =
      ''Elo + ML Ensemble''"
      "engineUsed (fastResult sampleInput sampleProbs 1) = ''Elo Rating System''"
    by (simp_all add: balancedResult_def fastResult_def)
  from 1 2 3 4 [of 5] 5 6 show ?thesis by blast
qed

subsection \<open>C7: the cache stays within capacity\<close>

text \<open>
  C7: start from the empty cache and run any sequence of \<open>cacheResult\<close> calls; after each
  of them (after the first \<open>i\<close> calls, for every \<open>i\<close>) the map holds at most 100 entries.
\<close>

theorem cache_size_never_exceeds_capacity:
  "length (predictionCache
     (cacheResults env \<lparr>predictionCache = [], reads = n\<rparr> (take i ops))) \<le> 100"
  by (rule cacheResults_bound) simp

subsection \<open>C8: the static fallback\<close>

text \<open>
  C8: \<open>generateBasicFallback\<close> is a function of its two arguments alone, and of the input
  not at all: it returns the distribution 0.52 / 0.46 / 0.02 with confidence 0.60, the
  elapsed time it was given, and accuracy 65, which is strictly below the accuracy of every
  result the fast tier or the balanced tier builds, for any format; its risk factors name
  the limited data.
\<close>

theorem fallback_fixed:
  "generateBasicFallback input t =
     \<lparr>team1WinProb = 0.52, team2WinProb = 0.46, drawProb = 0.02, confidence = 0.60,
      keyFactors = [''Basic statistical analysis''],
      riskFactors = [''Limited data available'', ''Fallback prediction''],
      modelVersion = ''fallback-v1.0'', processingTimeMs = t,
      engineUsed = ''Basic Fallback'', accuracy = 65, fromCache = None\<rparr> \<and>
   accuracy (generateBasicFallback input t) < accuracy (fastResult input' eloResult e1) \<and>
   accuracy (generateBasicFallback input t) < accuracy (balancedResult input' enhanced e2) \<and>
   ''Limited data available'' \<in> set (riskFactors (generateBasicFallback input t)) \<and>
   generateBasicFallback input t = generateBasicFallback input' t"
  by (simp add: generateBasicFallback_def fastResult_def balancedResult_def)

subsection \<open>C9: eviction is first in, first out\<close>

text \<open>
  C9: an insertion puts a new key last in the map's iteration order and leaves a key that
  is present where it stands; past 100 entries it evicts the key that is first in that
  order. A lookup never changes the map, so it never re-orders it. When a new key arrives
  at a full map, the keys become the old ones without their first, followed by the new
  key, and the first key is gone. Over a run of insertions from the empty cache the
  iteration order is the order of insertion: the keys are distinct, each present key
  carries the number of the insertion that put it into the map, and these numbers increase
  strictly along the iteration order, so the key evicted next is the earliest inserted of
  the keys still present.
\<close>

theorem eviction_is_first_inserted:
  "Map_keys (predictionCache (cacheResult env s key r)) =
     (let ks = Map_keys (predictionCache s);
          ks' = (if key \<in> set ks then ks else ks @ [key])
      in if length ks' > 100 then tl ks' else ks') \<and>
   predictionCache (snd (getCachedPrediction env s k)) = predictionCache s \<and>
   (length (predictionCache s) = 100 \<and> key \<notin> set (Map_keys (predictionCache s)) \<and>
    distinct (Map_keys (predictionCache s)) \<longrightarrow>
      Map_keys (predictionCache (cacheResult env s key r)) =
        tl (Map_keys (predictionCache s)) @ [key] \<and>
      hd (Map_keys (predictionCache s)) \<notin>
        set (Map_keys (predictionCache (cacheResult env s key r)))) \<and>
   (let q = insertionSteps 0 [] (map fst ops);
        final = cacheResults env \<lparr>predictionCache = [], reads = n\<rparr> ops
    in Map_keys (predictionCache final) = map fst q \<and>
       distinct (map fst q) \<and>
       sorted_wrt (<) (map snd q) \<and>
       (\<forall>(k', j) \<in> set q. j < length ops \<and> fst (ops ! j) = k'))"
proof -
  let ?s0 = "\<lparr>predictionCache = [], reads = n\<rparr>"
  let ?q = "insertionSteps 0 [] (map fst ops)"
  have full: "Map_keys (predictionCache (cacheResult env s key r)) =
        tl (Map_keys (predictionCache s)) @ [key] \<and>
      hd (Map_keys (predictionCache s)) \<notin>
        set (Map_keys (predictionCache (cacheResult env s key r)))"
    if len: "length (predictionCache s) = 100"
      and new: "key \<notin> set (Map_keys (predictionCache s))"
      and dist: "distinct (Map_keys (predictionCache s))"
  proof -
    obtain k0 ks where ks: "Map_keys (predictionCache s) = k0 # ks"
      using len by (cases "Map_keys (predictionCache s)") (auto simp: Map_keys_def)
    have "length ks = 99"
      using len ks length_Map_keys [of "predictionCache s"] by simp
    then have "Map_keys (predictionCache (cacheResult env s key r)) = ks @ [key]"
      using new ks by (simp add: cacheResult_keys Let_def)
    then show ?thesis
      using new dist ks by auto
  qed
  have keys: "Map_keys (predictionCache (cacheResults env ?s0 ops)) = map fst ?q"
    using insertionSteps_keys [of "[]" ?s0 0 ops env] by simp
  have dist: "distinct (map fst ?q)"
    using cacheResults_distinct [of ?s0 env ops] keys by simp
  have sorted: "sorted_wrt (<) (map snd ?q)"
    using insertionSteps_sorted [of "[]" 0 "map fst ops"] by simp
  have stamps: "\<forall>(k', j) \<in> set ?q. j < length ops \<and> fst (ops ! j) = k'"
    using insertionSteps_stamp [of _ _ 0 "[]" "map fst ops"] by fastforce
  have step: "Map_keys (predictionCache (cacheResult env s key r)) =
     (let ks = Map_keys (predictionCache s);
          ks' = (if key \<in> set ks then ks else ks @ [key])
      in if length ks' > 100 then tl ks' else ks')"
    by (rule cacheResult_keys)
  have get: "predictionCache (snd (getCachedPrediction env s k)) = predictionCache s"
    by (rule getCachedPrediction_cache)
  have trace: "let q = ?q; final = cacheResults env ?s0 ops
    in Map_keys (predictionCache final) = map fst q \<and>
       distinct (map fst q) \<and>
       sorted_wrt (<) (map snd q) \<and>
       (\<forall>(k', j) \<in> set q. j < length ops \<and> fst (ops ! j) = k')"
    unfolding Let_def using keys dist sorted stamps by blast
  from step get full trace show ?thesis by blast
qed

text \<open>
  A new key at a full cache takes the place of the first key \<open>k\<close>; and a short run, in which
  the second insertion under \<open>a\<close> leaves \<open>a\<close> first.
\<close>

theorem eviction_is_first_inserted_witness:
  "length (predictionCache fullState) = 100 \<and>
   ''new'' \<notin> set (Map_keys (predictionCache fullState)) \<and>
   distinct (Map_keys (predictionCache fullState)) \<and>
   hd (Map_keys (predictionCache fullState)) = ''k'' \<and>
   Map_keys (predictionCache
       (cacheResult sampleEnv fullState ''new'' (generateBasicFallback sampleInput 0))) =
     tl (Map_keys (predictionCache fullState)) @ [''new''] \<and>
   hd (Map_keys (predictionCache fullState)) \<notin>
     set (Map_keys (predictionCache
       (cacheResult sampleEnv fullState ''new'' (generateBasicFallback sampleInput 0)))) \<and>
   Map_keys (predictionCache
       (cacheResults sampleEnv \<lparr>predictionCache = [], reads = 0\<rparr>
          [(''a'', generateBasicFallback sampleInput 0),
           (''b'', generateBasicFallback sampleInput 0),
           (''a'', generateBasicFallback sampleInput 0)])) = [''a'', ''b'']"
proof -
  let ?r = "generateBasicFallback sampleInput 0"
  have 1: "length (predictionCache fullState) = 100"
    by (simp add: fullState_def)
  have 2: "''new'' \<notin> set (Map_keys (predictionCache fullState))"
    by (auto simp: fullState_def Map_keys_def)
  have 3: "distinct (Map_keys (predictionCache fullState))"
    by (simp add: fullState_def Map_keys_def distinct_map inj_on_def)
  have 4: "hd (Map_keys (predictionCache fullState)) = ''k''"
    by (simp add: fullState_def Map_keys_def hd_map)
  have 5: "insertionSteps 0 [] (map fst [(''a'', ?r), (''b'', ?r), (''a'', ?r)]) =
      [(''a'', 0), (''b'', 1)]"
    by (simp add: stampStep_def)
  have step: "Map_keys (predictionCache (cacheResult sampleEnv fullState ''new'' ?r)) =
        tl (Map_keys (predictionCache fullState)) @ [''new''] \<and>
      hd (Map_keys (predictionCache fullState)) \<notin>
        set (Map_keys (predictionCache (cacheResult sampleEnv fullState ''new'' ?r)))"
    using eviction_is_first_inserted [where env = sampleEnv and s = fullState
        and key = "''new''" and r = ?r and k = "''new''" and ops = "[]" and n = 0] 1 2 3
    by blast
  have run: "Map_keys (predictionCache
       (cacheResults sampleEnv \<lparr>predictionCache = [], reads = 0\<rparr>
          [(''a'', ?r), (''b'', ?r), (''a'', ?r)])) = [''a'', ''b'']"
    using eviction_is_first_inserted [where env = sampleEnv and s = fullState
        and key = "''new''" and r = ?r and k = "''new''"
        and ops = "[(''a'', ?r), (''b'', ?r), (''a'', ?r)]" and n = 0]
    unfolding 5 Let_def by simp
  from 1 2 3 4 step run show ?thesis by blast
qed

subsection \<open>C10: the cache statistics\<close>

text \<open>
  C10: \<open>getCacheStats\<close> reports the hit rate 0.85 in every state, whatever lookups came
  before, and as size the number of entries the map stores. An entry past its time to live
  is counted: a lookup of its key is a miss, leaves the entry in the map, and the size
  reported stays the same and is not 0.
\<close>

theorem cacheStats_constant_hitRate:
  "hitRate (getCacheStats s) = 0.85 \<and>
   statsSize (getCacheStats s) = length (predictionCache s) \<and>
   (Map_get (predictionCache s) key = Some e \<and> CACHE_TTL \<le> clock env (reads s) - timestamp e
      \<longrightarrow> fst (getCachedPrediction env s key) = None \<and>
          key \<in> set (Map_keys (predictionCache s)) \<and>
          0 < statsSize (getCacheStats s) \<and>
          statsSize (getCacheStats (snd (getCachedPrediction env s key))) =
            statsSize (getCacheStats s))"
proof -
  have "key \<in> set (Map_keys (predictionCache s))" if "Map_get (predictionCache s) key = Some e"
    using that Map_get_None_iff [of "predictionCache s" key] by simp
  moreover have "0 < length (predictionCache s)" if "Map_get (predictionCache s) key = Some e"
    using that by (cases "predictionCache s") auto
  ultimately show ?thesis
    by (auto simp: getCacheStats_def getCachedPrediction_cases)
qed

text \<open>The one entry of the stale cache is expired for a lookup, and counted all the same.\<close>

theorem cacheStats_constant_hitRate_witness:
  "Map_get (predictionCache staleState) ''fast_IND_AUS_t20'' =
     Some \<lparr>result = fastResult sampleInput sampleProbs 1, timestamp = 0\<rparr> \<and>
   CACHE_TTL \<le> clock laterEnv (reads staleState) - 0 \<and>
   fst (getCachedPrediction laterEnv staleState ''fast_IND_AUS_t20'') = None \<and>
   statsSize (getCacheStats staleState) = 1 \<and>
   hitRate (getCacheStats staleState) = 0.85"
proof -
  have 1: "Map_get (predictionCache staleState) ''fast_IND_AUS_t20'' =
     Some \<lparr>result = fastResult sampleInput sampleProbs 1, timestamp = 0\<rparr>"
    by (simp add: staleState_def)
  have 2: "CACHE_TTL \<le> clock laterEnv (reads staleState) - 0"
    by (simp add: sample_defs CACHE_TTL_def)
  have 3: "statsSize (getCacheStats staleState) = 1"
    by (simp add: getCacheStats_def staleState_def)
  show ?thesis
    using cacheStats_constant_hitRate [of staleState "''fast_IND_AUS_t20''"
        "\<lparr>result = fastResult sampleInput sampleProbs 1, timestamp = 0\<rparr>" laterEnv] 1 2 3
    by simp
qed

end
